theory Spec2Isabelle
  imports Main
begin

section \<open>The virtual item model\<close>

text \<open>
  The embedded code is the \<^verbatim>\<open>VirtualFileSystem\<close> class of
  \<^verbatim>\<open>src/lib/filesystem/filesystem.test.ts\<close> (lines 285 to 502) together with the
  types \<^verbatim>\<open>VirtualFile\<close>, \<^verbatim>\<open>VirtualFolder\<close> and \<^verbatim>\<open>VirtualItem\<close>.

  A \<^verbatim>\<open>metaData\<close> field has type \<^verbatim>\<open>Record<string, any>\<close>: a JavaScript object whose
  values are arbitrary. The values are modelled by the JSON-like type \<open>jsval\<close>; numbers
  are restricted to integers. The code only ever tests such a value for truthiness
  (\<^verbatim>\<open>metaData.isSystem\<close> in \<^verbatim>\<open>delete\<close>).
\<close>

datatype jsval =
    JUndefined
  | JNull
  | JBool bool
  | JNum int
  | JStr string
  | JObject "(string \<times> jsval) list"

type_synonym Record_any = "(string \<times> jsval) list"

fun truthy :: "jsval \<Rightarrow> bool" where
  "truthy JUndefined = False"
| "truthy JNull = False"
| "truthy (JBool b) = b"
| "truthy (JNum n) = (n \<noteq> 0)"
| "truthy (JStr s) = (s \<noteq> [])"
| "truthy (JObject ps) = True"

text \<open>Reading \<^verbatim>\<open>m.k\<close> on a metadata object: a missing property reads as \<^verbatim>\<open>undefined\<close>.\<close>

definition get_prop :: "Record_any \<Rightarrow> string \<Rightarrow> jsval" where
  "get_prop m k = (case map_of m k of None \<Rightarrow> JUndefined | Some v \<Rightarrow> v)"

datatype VirtualFile =
  VirtualFile (file_name: string) (file_content: string) (file_metaData: Record_any)

datatype VirtualItem =
    File VirtualFile
  | Folder VirtualFolder
and VirtualFolder =
  VirtualFolder (folder_name: string) (folder_items: "(string \<times> VirtualItem) list")
    (folder_metaData: Record_any)

definition createVirtualFile :: "string \<Rightarrow> string \<Rightarrow> Record_any \<Rightarrow> VirtualFile" where
  "createVirtualFile name content metaData = VirtualFile name content metaData"

definition createVirtualFolder :: "string \<Rightarrow> Record_any \<Rightarrow> VirtualFolder" where
  "createVirtualFolder name metaData = VirtualFolder name [] metaData"

section \<open>JavaScript objects used as records\<close>

text \<open>
  \<^verbatim>\<open>items\<close> is a \<^verbatim>\<open>Record<string, VirtualItem>\<close>, a plain JavaScript object. It is
  modelled by the list of its own properties in the order in which \<^verbatim>\<open>Object.values\<close>
  enumerates them (ECMAScript, OrdinaryOwnPropertyKeys): first the keys that are array
  indices (canonical decimal numerals below \<open>2^32 - 1\<close>) in ascending numeric order,
  then all other keys in the order in which the properties were created.
\<close>

definition is_digit :: "char \<Rightarrow> bool" where
  "is_digit c = (c \<in> set ''0123456789'')"

definition digit_value :: "char \<Rightarrow> int" where
  "digit_value c = of_char c - 48"

definition index_value :: "string \<Rightarrow> int" where
  "index_value s = foldl (\<lambda>n c. 10 * n + digit_value c) 0 s"

definition is_array_index :: "string \<Rightarrow> bool" where
  "is_array_index s =
     (s \<noteq> [] \<and> list_all is_digit s \<and> (s = ''0'' \<or> hd s \<noteq> CHR ''0'')
      \<and> index_value s < 4294967295)"

text \<open>
  A plain object inherits the properties of \<^verbatim>\<open>Object.prototype\<close>. Reading
  \<^verbatim>\<open>items[name]\<close> for a name that is not an own property but is one of these yields the
  inherited function or object: a truthy value that has neither a \<^verbatim>\<open>type\<close> nor a
  \<^verbatim>\<open>metaData\<close> property.
\<close>

definition Object_prototype_keys :: "string list" where
  "Object_prototype_keys =
     [''constructor'', ''__defineGetter__'', ''__defineSetter__'', ''hasOwnProperty'',
      ''__lookupGetter__'', ''__lookupSetter__'', ''isPrototypeOf'',
      ''propertyIsEnumerable'', ''toString'', ''valueOf'', ''__proto__'',
      ''toLocaleString'']"

datatype 'a property = Undefined | Own 'a | Inherited

text \<open>\<^verbatim>\<open>o[k]\<close>\<close>

definition obj_get :: "(string \<times> 'a) list \<Rightarrow> string \<Rightarrow> 'a property" where
  "obj_get ps k =
     (case map_of ps k of
        Some v \<Rightarrow> Own v
      | None \<Rightarrow> if k \<in> set Object_prototype_keys then Inherited else Undefined)"

text \<open>Truthiness of \<^verbatim>\<open>o[k]\<close> when the own values are objects.\<close>

fun present :: "'a property \<Rightarrow> bool" where
  "present Undefined = False"
| "present (Own v) = True"
| "present Inherited = True"

text \<open>
  \<^verbatim>\<open>o[k] = v\<close>. An existing own property keeps its position. A new property whose key
  is an array index goes before the first own key that is not a smaller array index; any
  other new property goes to the end. (The code assigns only after \<^verbatim>\<open>o[k]\<close> was found
  falsy or an own property, so the key is never an inherited one.)
\<close>

fun replace_own :: "string \<Rightarrow> 'a \<Rightarrow> (string \<times> 'a) list \<Rightarrow> (string \<times> 'a) list" where
  "replace_own k v [] = []"
| "replace_own k v ((k', v') # ps) =
     (if k' = k then (k, v) # ps else (k', v') # replace_own k v ps)"

fun insert_index :: "string \<Rightarrow> 'a \<Rightarrow> (string \<times> 'a) list \<Rightarrow> (string \<times> 'a) list" where
  "insert_index k v [] = [(k, v)]"
| "insert_index k v ((k', v') # ps) =
     (if is_array_index k' \<and> index_value k' < index_value k
      then (k', v') # insert_index k v ps
      else (k, v) # (k', v') # ps)"

definition obj_set :: "(string \<times> 'a) list \<Rightarrow> string \<Rightarrow> 'a \<Rightarrow> (string \<times> 'a) list" where
  "obj_set ps k v =
     (if map_of ps k \<noteq> None then replace_own k v ps
      else if is_array_index k then insert_index k v ps
      else ps @ [(k, v)])"

text \<open>\<^verbatim>\<open>delete o[k]\<close>\<close>

definition obj_delete :: "(string \<times> 'a) list \<Rightarrow> string \<Rightarrow> (string \<times> 'a) list" where
  "obj_delete ps k = filter (\<lambda>p. fst p \<noteq> k) ps"

text \<open>\<^verbatim>\<open>Object.values(o)\<close>\<close>

definition Object_values :: "(string \<times> 'a) list \<Rightarrow> 'a list" where
  "Object_values ps = map snd ps"

section \<open>Paths\<close>

text \<open>\<^verbatim>\<open>path.split("/")\<close>: the pieces between the slashes, at least one piece.\<close>

fun split_slash :: "string \<Rightarrow> string list" where
  "split_slash [] = [[]]"
| "split_slash (c # cs) =
     (if c = CHR ''/'' then [] # split_slash cs
      else (case split_slash cs of [] \<Rightarrow> [[c]] | piece # pieces \<Rightarrow> (c # piece) # pieces))"

text \<open>\<^verbatim>\<open>path.split("/").filter(Boolean)\<close>: the empty pieces are dropped.\<close>

definition path_parts :: "string \<Rightarrow> string list" where
  "path_parts path = filter (\<lambda>s. s \<noteq> []) (split_slash path)"

text \<open>\<^verbatim>\<open>parts.join("/")\<close>\<close>

fun join_slash :: "string list \<Rightarrow> string" where
  "join_slash [] = []"
| "join_slash [p] = p"
| "join_slash (p # q # ps) = p @ ''/'' @ join_slash (q # ps)"

section \<open>Errors\<close>

text \<open>
  Every \<^verbatim>\<open>throw new Error(...)\<close> of the class is one constructor; \<open>message\<close> gives the
  text of the thrown error. \<open>FileNotFound\<close> is thrown by \<^verbatim>\<open>getFile\<close>, \<open>NotFound\<close> by
  \<^verbatim>\<open>delete\<close>. \<open>TypeError\<close> is the engine's error for reading a property of
  \<^verbatim>\<open>undefined\<close>.
\<close>

datatype error =
    InvalidPath string
  | FolderNotFound string
  | FileNotFound string
  | NotFound string
  | AlreadyExists string string
  | SystemProtected string
  | TypeError

fun message :: "error \<Rightarrow> string" where
  "message (InvalidPath path) = ''Invalid path \"'' @ path @ ''\".''"
| "message (FolderNotFound path) = ''Folder \"'' @ path @ ''\" does not exist.''"
| "message (FileNotFound path) = ''VirtualFile \"'' @ path @ ''\" does not exist.''"
| "message (NotFound path) = ''\"'' @ path @ ''\" does not exist.''"
| "message (AlreadyExists name path) =
     ''A file or folder with the name \"'' @ name @ ''\" already exists in the path \"''
       @ path @ ''\".''"
| "message (SystemProtected path) =
     ''\"'' @ path @ ''\" is a system file and cannot be deleted.''"
| "message TypeError = ''Cannot read properties of undefined''"

section \<open>The file system\<close>

datatype VirtualFileSystem = VirtualFileSystem (root: VirtualFolder)

text \<open>
  The constructor: \<^verbatim>\<open>this.root = root || createVirtualFolder("")\<close>. An object is
  truthy, so a given root is always taken.
\<close>

definition new_VirtualFileSystem :: "VirtualFolder option \<Rightarrow> VirtualFileSystem" where
  "new_VirtualFileSystem r =
     (case r of None \<Rightarrow> VirtualFileSystem (createVirtualFolder [] [])
      | Some data \<Rightarrow> VirtualFileSystem data)"

text \<open>A parameter with a default value: the default is taken when the argument is omitted.\<close>

definition or_default :: "'a option \<Rightarrow> 'a \<Rightarrow> 'a" where
  "or_default arg d = (case arg of None \<Rightarrow> d | Some a \<Rightarrow> a)"

subsection \<open>Resolving paths\<close>

text \<open>
  The loop of \<^verbatim>\<open>getFolder\<close>. The error it throws is built from \<^verbatim>\<open>path\<close>, the
  argument of \<^verbatim>\<open>getFolder\<close>, whatever the part at which the walk stops.
\<close>

fun getFolder_loop :: "string \<Rightarrow> VirtualFolder \<Rightarrow> string list \<Rightarrow> error + VirtualFolder" where
  "getFolder_loop path currentFolder [] = Inr currentFolder"
| "getFolder_loop path currentFolder (part # parts) =
     (case obj_get (folder_items currentFolder) part of
        Own (Folder nextFolder) \<Rightarrow> getFolder_loop path nextFolder parts
      | _ \<Rightarrow> Inl (FolderNotFound path))"

definition getFolder :: "VirtualFileSystem \<Rightarrow> string \<Rightarrow> error + VirtualFolder" where
  "getFolder vfs path = getFolder_loop path (root vfs) (path_parts path)"

definition getParentFolderAndName ::
  "VirtualFileSystem \<Rightarrow> string \<Rightarrow> error + (VirtualFolder \<times> string)" where
  "getParentFolderAndName vfs path =
     (let parts = path_parts path in
      if parts = [] then Inl (InvalidPath path)
      else
        (case getFolder vfs (join_slash (butlast parts)) of
           Inl e \<Rightarrow> Inl e
         | Inr parentFolder \<Rightarrow> Inr (parentFolder, last parts)))"

subsection \<open>Reading\<close>

definition getFile :: "VirtualFileSystem \<Rightarrow> string \<Rightarrow> error + VirtualFile" where
  "getFile vfs path =
     (case getParentFolderAndName vfs path of
        Inl e \<Rightarrow> Inl e
      | Inr (parentFolder, name) \<Rightarrow>
          (case obj_get (folder_items parentFolder) name of
             Own (File file) \<Rightarrow> Inr file
           | _ \<Rightarrow> Inl (FileNotFound path)))"

definition readFile :: "VirtualFileSystem \<Rightarrow> string \<Rightarrow> error + string" where
  "readFile vfs path =
     (case getFile vfs path of Inl e \<Rightarrow> Inl e | Inr file \<Rightarrow> Inr (file_content file))"

definition listItems :: "VirtualFileSystem \<Rightarrow> string option \<Rightarrow> error + VirtualItem list" where
  "listItems vfs path_arg =
     (case getFolder vfs (or_default path_arg []) of
        Inl e \<Rightarrow> Inl e
      | Inr folder \<Rightarrow> Inr (Object_values (folder_items folder)))"

text \<open>
  \<^verbatim>\<open>getItem\<close> returns \<^verbatim>\<open>parentFolder.items[name] ?? null\<close>; the result \<open>Undefined\<close>
  stands for the \<^verbatim>\<open>null\<close> it returns.
\<close>

definition getItem :: "VirtualFileSystem \<Rightarrow> string \<Rightarrow> error + VirtualItem property" where
  "getItem vfs path =
     (case getParentFolderAndName vfs path of
        Inl e \<Rightarrow> Inl e
      | Inr (parentFolder, name) \<Rightarrow> Inr (obj_get (folder_items parentFolder) name))"

definition exists :: "VirtualFileSystem \<Rightarrow> string \<Rightarrow> bool" where
  "exists vfs path =
     (case getItem vfs path of Inl error \<Rightarrow> False | Inr item \<Rightarrow> item \<noteq> Undefined)"

fun item_metaData :: "VirtualItem \<Rightarrow> Record_any" where
  "item_metaData (File f) = file_metaData f"
| "item_metaData (Folder d) = folder_metaData d"

subsection \<open>Writing through a draft\<close>

text \<open>
  Each writing method runs its body inside immer's \<^verbatim>\<open>produce(this, draft => ...)\<close>.
  The folder that the resolver hands back there is a draft of the folder it walked to, and
  an assignment through it yields a tree that differs from the base at exactly that place:
  every folder on the way down is copied with the one child replaced, its other
  properties kept in place. \<open>modify_folder parts f\<close> is that tree, for the change \<open>f\<close> of
  the folder reached by \<open>parts\<close>. When the body throws, \<^verbatim>\<open>produce\<close> throws the same
  error and yields nothing.
\<close>

fun modify_folder ::
  "string list \<Rightarrow> (VirtualFolder \<Rightarrow> VirtualFolder) \<Rightarrow> VirtualFolder \<Rightarrow> VirtualFolder" where
  "modify_folder [] f currentFolder = f currentFolder"
| "modify_folder (part # parts) f currentFolder =
     (case obj_get (folder_items currentFolder) part of
        Own (Folder nextFolder) \<Rightarrow>
          VirtualFolder (folder_name currentFolder)
            (obj_set (folder_items currentFolder) part (Folder (modify_folder parts f nextFolder)))
            (folder_metaData currentFolder)
      | _ \<Rightarrow> currentFolder)"

text \<open>The parts that \<^verbatim>\<open>getParentFolderAndName\<close> makes \<^verbatim>\<open>getFolder\<close> walk.\<close>

definition parent_parts :: "string \<Rightarrow> string list" where
  "parent_parts path = path_parts (join_slash (butlast (path_parts path)))"

text \<open>\<^verbatim>\<open>parentFolder.items[name] = item\<close> and \<^verbatim>\<open>delete parentFolder.items[name]\<close>\<close>

definition set_item :: "string \<Rightarrow> VirtualItem \<Rightarrow> VirtualFolder \<Rightarrow> VirtualFolder" where
  "set_item name item folder =
     VirtualFolder (folder_name folder) (obj_set (folder_items folder) name item)
       (folder_metaData folder)"

definition delete_item :: "string \<Rightarrow> VirtualFolder \<Rightarrow> VirtualFolder" where
  "delete_item name folder =
     VirtualFolder (folder_name folder) (obj_delete (folder_items folder) name)
       (folder_metaData folder)"

definition createFile ::
  "VirtualFileSystem \<Rightarrow> string \<Rightarrow> string option \<Rightarrow> Record_any option
     \<Rightarrow> error + VirtualFileSystem" where
  "createFile vfs path content_arg metaData_arg =
     (let content = or_default content_arg []; metaData = or_default metaData_arg [] in
      case getParentFolderAndName vfs path of
        Inl e \<Rightarrow> Inl e
      | Inr (parentFolder, name) \<Rightarrow>
          if present (obj_get (folder_items parentFolder) name)
          then Inl (AlreadyExists name path)
          else Inr (VirtualFileSystem
                 (modify_folder (parent_parts path)
                    (set_item name (File (createVirtualFile name content metaData)))
                    (root vfs))))"

definition createFolder ::
  "VirtualFileSystem \<Rightarrow> string \<Rightarrow> Record_any option \<Rightarrow> error + VirtualFileSystem" where
  "createFolder vfs path metaData_arg =
     (let metaData = or_default metaData_arg [] in
      case getParentFolderAndName vfs path of
        Inl e \<Rightarrow> Inl e
      | Inr (parentFolder, name) \<Rightarrow>
          if present (obj_get (folder_items parentFolder) name)
          then Inl (AlreadyExists name path)
          else Inr (VirtualFileSystem
                 (modify_folder (parent_parts path)
                    (set_item name (Folder (createVirtualFolder name metaData)))
                    (root vfs))))"

text \<open>
  \<^verbatim>\<open>file.content = content; file.metaData = metaData ?? file.metaData\<close>, on the draft of
  the file found by \<^verbatim>\<open>getFile\<close>.
\<close>

definition updateFile ::
  "VirtualFileSystem \<Rightarrow> string \<Rightarrow> string \<Rightarrow> Record_any option
     \<Rightarrow> error + VirtualFileSystem" where
  "updateFile vfs path content metaData =
     (case getFile vfs path of
        Inl e \<Rightarrow> Inl e
      | Inr file \<Rightarrow>
          Inr (VirtualFileSystem
            (modify_folder (parent_parts path)
               (set_item (last (path_parts path))
                  (File (VirtualFile (file_name file) content
                     (case metaData of None \<Rightarrow> file_metaData file | Some m \<Rightarrow> m))))
               (root vfs))))"

definition delete ::
  "VirtualFileSystem \<Rightarrow> string \<Rightarrow> error + VirtualFileSystem" where
  "delete vfs path =
     (case getParentFolderAndName vfs path of
        Inl e \<Rightarrow> Inl e
      | Inr (parentFolder, name) \<Rightarrow>
          (case obj_get (folder_items parentFolder) name of
             Undefined \<Rightarrow> Inl (NotFound path)
           | Inherited \<Rightarrow> Inl TypeError
           | Own item \<Rightarrow>
               if truthy (get_prop (item_metaData item) ''isSystem'')
               then Inl (SystemProtected path)
               else Inr (VirtualFileSystem
                      (modify_folder (parent_parts path) (delete_item name) (root vfs)))))"

definition createOrUpdateFile ::
  "VirtualFileSystem \<Rightarrow> string \<Rightarrow> string option \<Rightarrow> Record_any option
     \<Rightarrow> error + VirtualFileSystem" where
  "createOrUpdateFile vfs path content_arg metaData_arg =
     (let content = or_default content_arg []; metaData = or_default metaData_arg [] in
      case updateFile vfs path content (Some metaData) of
        Inr updated \<Rightarrow> Inr updated
      | Inl error \<Rightarrow> createFile vfs path (Some content) (Some metaData))"

subsection \<open>Serialization\<close>

definition toJSON :: "VirtualFileSystem \<Rightarrow> VirtualFolder" where
  "toJSON vfs = root vfs"

definition fromJSON :: "VirtualFolder \<Rightarrow> VirtualFileSystem" where
  "fromJSON data = new_VirtualFileSystem (Some data)"

section \<open>Client code\<close>

text \<open>\<^verbatim>\<open>new VirtualFileSystem()\<close>\<close>

definition empty_vfs :: VirtualFileSystem where
  "empty_vfs = new_VirtualFileSystem None"

text \<open>
  Two small file systems: the result of \<^verbatim>\<open>createFolder("folder")\<close> and the result of
  \<^verbatim>\<open>createFile("x", "A", {tag: 1})\<close> on an empty file system.
\<close>

definition vfs_with_folder :: VirtualFileSystem where
  "vfs_with_folder = VirtualFileSystem (VirtualFolder [] [(''folder'', Folder (VirtualFolder ''folder'' [] []))] [])"
definition vfs_with_file :: VirtualFileSystem where
  "vfs_with_file = VirtualFileSystem (VirtualFolder [] [(''x'', File (VirtualFile ''x'' ''A'' [(''tag'', JNum 1)]))] [])"

text \<open>
  The result of \<^verbatim>\<open>createFile("f", "x", {isSystem: 1})\<close> on an empty file system: the
  flag is truthy and is not \<^verbatim>\<open>true\<close>.
\<close>

definition vfs_with_flagged_file :: VirtualFileSystem where
  "vfs_with_flagged_file =
     VirtualFileSystem
       (VirtualFolder [] [(''f'', File (VirtualFile ''f'' ''x'' [(''isSystem'', JNum 1)]))] [])"

text \<open>
  A caller that creates children in one folder, one after the other, each call on the
  result of the previous one: \<^verbatim>\<open>vfs = vfs.createFile(folder + "/" + name, content)\<close> or
  \<^verbatim>\<open>vfs = vfs.createFolder(folder + "/" + name)\<close>.
\<close>

datatype child = NewFile string string | NewFolder string

fun child_name :: "child \<Rightarrow> string" where
  "child_name (NewFile name content) = name"
| "child_name (NewFolder name) = name"

fun create_child :: "VirtualFileSystem \<Rightarrow> string \<Rightarrow> child \<Rightarrow> error + VirtualFileSystem" where
  "create_child vfs folder (NewFile name content) =
     createFile vfs (folder @ ''/'' @ name) (Some content) None"
| "create_child vfs folder (NewFolder name) =
     createFolder vfs (folder @ ''/'' @ name) None"

fun created_item :: "child \<Rightarrow> VirtualItem" where
  "created_item (NewFile name content) = File (VirtualFile name content [])"
| "created_item (NewFolder name) = Folder (VirtualFolder name [] [])"

fun create_children ::
  "VirtualFileSystem \<Rightarrow> string \<Rightarrow> child list \<Rightarrow> error + VirtualFileSystem" where
  "create_children vfs folder [] = Inr vfs"
| "create_children vfs folder (c # cs) =
     (case create_child vfs folder c of
        Inl e \<Rightarrow> Inl e
      | Inr vfs' \<Rightarrow> create_children vfs' folder cs)"

text \<open>
  The file system of the serialization test: \<^verbatim>\<open>createFolder("folder")\<close>, then
  \<^verbatim>\<open>createFile("folder/file1.txt", "Content 1")\<close> and
  \<^verbatim>\<open>createFile("folder/file2.txt", "Content 2")\<close>.
\<close>

definition vfs_with_files :: VirtualFileSystem where
  "vfs_with_files =
     VirtualFileSystem (VirtualFolder []
       [(''folder'', Folder (VirtualFolder ''folder''
          [(''file1.txt'', File (VirtualFile ''file1.txt'' ''Content 1'' [])),
           (''file2.txt'', File (VirtualFile ''file2.txt'' ''Content 2'' []))] []))] [])"

text \<open>
  A file system with two folders side by side, \<^verbatim>\<open>a\<close> holding the file \<^verbatim>\<open>f\<close> and \<^verbatim>\<open>b\<close>
  holding the file \<^verbatim>\<open>g\<close>.
\<close>

definition vfs_two_folders :: VirtualFileSystem where
  "vfs_two_folders =
     VirtualFileSystem (VirtualFolder []
       [(''a'', Folder (VirtualFolder ''a'' [(''f'', File (VirtualFile ''f'' ''1'' []))] [])),
        (''b'', Folder (VirtualFolder ''b'' [(''g'', File (VirtualFile ''g'' ''2'' []))] []))] [])"

section \<open>The wording of the specification\<close>

text \<open>
  The specification says that a folder error echoes the sub-path consumed so far: when the
  parts \<open>p1 .. pk\<close> resolve and \<open>p(k+1)\<close> does not, the sub-path \<open>p1/.../p(k+1)\<close>.
  \<open>resolved_parts\<close> is that \<open>k\<close> and \<open>consumed_sub_path\<close> that sub-path; they follow
  the specification's words, not the code.
\<close>

fun resolved_parts :: "VirtualFolder \<Rightarrow> string list \<Rightarrow> nat" where
  "resolved_parts currentFolder [] = 0"
| "resolved_parts currentFolder (part # parts) =
     (case obj_get (folder_items currentFolder) part of
        Own (Folder nextFolder) \<Rightarrow> Suc (resolved_parts nextFolder parts)
      | _ \<Rightarrow> 0)"

definition consumed_sub_path :: "VirtualFolder \<Rightarrow> string list \<Rightarrow> string" where
  "consumed_sub_path folder parts = join_slash (take (Suc (resolved_parts folder parts)) parts)"

section \<open>Objects in a store\<close>

text \<open>
  JavaScript objects have identity, and two snapshots may hold the same folder object.
  To say that an operation leaves its receiver alone, the objects are put in a store: a
  list of objects, an object's address being its index. A folder object holds the
  addresses of its children. A snapshot is the address of its root folder.
\<close>

datatype object =
    FileObject VirtualFile
  | FolderObject string "(string \<times> nat) list" Record_any

type_synonym store = "object list"

text \<open>A new object gets the next free address; no existing object is touched.\<close>

definition alloc :: "store \<Rightarrow> object \<Rightarrow> nat \<times> store" where
  "alloc h obj = (length h, h @ [obj])"

text \<open>
  The tree that an address denotes: what a reader that starts there sees. Objects are
  built before the objects that point to them, so a child's address is below its
  parent's; the reading follows only such pointers.
\<close>

definition no_item :: VirtualItem where
  "no_item = File (VirtualFile [] [] [])"

function item_at :: "store \<Rightarrow> nat \<Rightarrow> VirtualItem" where
  "item_at h a =
     (if a < length h then
        (case h ! a of
           FileObject f \<Rightarrow> File f
         | FolderObject name children metaData \<Rightarrow>
             Folder (VirtualFolder name
               (map (\<lambda>p. (fst p, if snd p < a then item_at h (snd p) else no_item)) children)
               metaData))
      else no_item)"
  by pat_completeness auto
termination
  by (relation "measure snd") auto

declare item_at.simps [simp del]

text \<open>The children of a folder object, read.\<close>

definition items_at :: "store \<Rightarrow> (string \<times> nat) list \<Rightarrow> (string \<times> VirtualItem) list" where
  "items_at h children = map (\<lambda>p. (fst p, item_at h (snd p))) children"

definition folder_at :: "store \<Rightarrow> nat \<Rightarrow> VirtualFolder" where
  "folder_at h a = (case item_at h a of Folder d \<Rightarrow> d | File f \<Rightarrow> VirtualFolder [] [] [])"

definition snapshot_of :: "store \<Rightarrow> nat \<Rightarrow> VirtualFileSystem" where
  "snapshot_of h v = VirtualFileSystem (folder_at h v)"

text \<open>Every pointer of the store goes to a lower address, and roots are folders.\<close>

fun pointers :: "object \<Rightarrow> nat list" where
  "pointers (FileObject f) = []"
| "pointers (FolderObject name children metaData) = map snd children"

definition wf_store :: "store \<Rightarrow> bool" where
  "wf_store h = (\<forall>a < length h. \<forall>c \<in> set (pointers (h ! a)). c < a)"

fun is_folder_object :: "object \<Rightarrow> bool" where
  "is_folder_object (FileObject f) = False"
| "is_folder_object (FolderObject name children metaData) = True"

definition is_snapshot :: "store \<Rightarrow> nat \<Rightarrow> bool" where
  "is_snapshot h v = (wf_store h \<and> v < length h \<and> is_folder_object (h ! v))"

text \<open>
  What \<^verbatim>\<open>produce\<close> builds when the draft of the folder reached by \<open>parts\<close> is assigned
  to: a copy of that folder with the changed children, and a copy of every folder on the
  way down to it, pointing to the copy of its child. All other objects are shared with
  the base. The result is the address of the new root and the extended store.
\<close>

fun copy_path ::
  "store \<Rightarrow> nat \<Rightarrow> string list \<Rightarrow> ((string \<times> nat) list \<Rightarrow> (string \<times> nat) list)
     \<Rightarrow> nat \<times> store" where
  "copy_path h a [] change =
     (case h ! a of
        FolderObject name children metaData \<Rightarrow>
          alloc h (FolderObject name (change children) metaData)
      | FileObject f \<Rightarrow> (a, h))"
| "copy_path h a (part # parts) change =
     (case h ! a of
        FolderObject name children metaData \<Rightarrow>
          (case obj_get children part of
             Own c \<Rightarrow>
               if is_folder_object (h ! c) then
                 (case copy_path h c parts change of
                    (c', h') \<Rightarrow> alloc h' (FolderObject name (obj_set children part c') metaData))
               else (a, h)
           | _ \<Rightarrow> (a, h))
      | FileObject f \<Rightarrow> (a, h))"

text \<open>
  The operations on the store. Each decides as the method does on the tree it reads
  (the throws of the methods all come before their first assignment), and, when it does
  not throw, builds the new objects: the new or changed item first, then the copies of
  the folders above it.
\<close>

definition store_createFile ::
  "store \<Rightarrow> nat \<Rightarrow> string \<Rightarrow> string option \<Rightarrow> Record_any option
     \<Rightarrow> (error + nat) \<times> store" where
  "store_createFile h v path content_arg metaData_arg =
     (case createFile (snapshot_of h v) path content_arg metaData_arg of
        Inl e \<Rightarrow> (Inl e, h)
      | Inr result \<Rightarrow>
          (let name = last (path_parts path);
               content = or_default content_arg []; metaData = or_default metaData_arg [] in
           case alloc h (FileObject (createVirtualFile name content metaData)) of
             (item, h1) \<Rightarrow>
               (case copy_path h1 v (parent_parts path) (\<lambda>children. obj_set children name item) of
                  (r, h2) \<Rightarrow> (Inr r, h2))))"

definition store_createFolder ::
  "store \<Rightarrow> nat \<Rightarrow> string \<Rightarrow> Record_any option \<Rightarrow> (error + nat) \<times> store" where
  "store_createFolder h v path metaData_arg =
     (case createFolder (snapshot_of h v) path metaData_arg of
        Inl e \<Rightarrow> (Inl e, h)
      | Inr result \<Rightarrow>
          (let name = last (path_parts path); metaData = or_default metaData_arg [] in
           case alloc h (FolderObject name [] metaData) of
             (item, h1) \<Rightarrow>
               (case copy_path h1 v (parent_parts path) (\<lambda>children. obj_set children name item) of
                  (r, h2) \<Rightarrow> (Inr r, h2))))"

definition store_updateFile ::
  "store \<Rightarrow> nat \<Rightarrow> string \<Rightarrow> string \<Rightarrow> Record_any option \<Rightarrow> (error + nat) \<times> store" where
  "store_updateFile h v path content metaData =
     (case getFile (snapshot_of h v) path of
        Inl e \<Rightarrow> (Inl e, h)
      | Inr file \<Rightarrow>
          (let name = last (path_parts path) in
           case alloc h (FileObject (VirtualFile (file_name file) content
                   (case metaData of None \<Rightarrow> file_metaData file | Some m \<Rightarrow> m))) of
             (item, h1) \<Rightarrow>
               (case copy_path h1 v (parent_parts path) (\<lambda>children. obj_set children name item) of
                  (r, h2) \<Rightarrow> (Inr r, h2))))"

definition store_delete :: "store \<Rightarrow> nat \<Rightarrow> string \<Rightarrow> (error + nat) \<times> store" where
  "store_delete h v path =
     (case delete (snapshot_of h v) path of
        Inl e \<Rightarrow> (Inl e, h)
      | Inr result \<Rightarrow>
          (let name = last (path_parts path) in
           case copy_path h v (parent_parts path) (\<lambda>children. obj_delete children name) of
             (r, h2) \<Rightarrow> (Inr r, h2)))"

definition store_createOrUpdateFile ::
  "store \<Rightarrow> nat \<Rightarrow> string \<Rightarrow> string option \<Rightarrow> Record_any option
     \<Rightarrow> (error + nat) \<times> store" where
  "store_createOrUpdateFile h v path content_arg metaData_arg =
     (let content = or_default content_arg []; metaData = or_default metaData_arg [] in
      case store_updateFile h v path content (Some metaData) of
        (Inr updated, h') \<Rightarrow> (Inr updated, h')
      | (Inl error, h') \<Rightarrow> store_createFile h' v path (Some content) (Some metaData))"

text \<open>The five operations of the claim, as data.\<close>

datatype operation =
    CreateFile string "string option" "Record_any option"
  | CreateFolder string "Record_any option"
  | UpdateFile string string "Record_any option"
  | CreateOrUpdateFile string "string option" "Record_any option"
  | Delete string

fun apply_operation :: "operation \<Rightarrow> VirtualFileSystem \<Rightarrow> error + VirtualFileSystem" where
  "apply_operation (CreateFile path content metaData) vfs = createFile vfs path content metaData"
| "apply_operation (CreateFolder path metaData) vfs = createFolder vfs path metaData"
| "apply_operation (UpdateFile path content metaData) vfs = updateFile vfs path content metaData"
| "apply_operation (CreateOrUpdateFile path content metaData) vfs =
     createOrUpdateFile vfs path content metaData"
| "apply_operation (Delete path) vfs = delete vfs path"

fun store_apply :: "operation \<Rightarrow> store \<Rightarrow> nat \<Rightarrow> (error + nat) \<times> store" where
  "store_apply (CreateFile path content metaData) h v = store_createFile h v path content metaData"
| "store_apply (CreateFolder path metaData) h v = store_createFolder h v path metaData"
| "store_apply (UpdateFile path content metaData) h v = store_updateFile h v path content metaData"
| "store_apply (CreateOrUpdateFile path content metaData) h v =
     store_createOrUpdateFile h v path content metaData"
| "store_apply (Delete path) h v = store_delete h v path"

text \<open>
  An outcome on the store agrees with a result on trees: an error is the same error and
  leaves the store as it was; a new root is a snapshot of a store that extends the old one
  and denotes the resulting tree.
\<close>

definition refines ::
  "store \<Rightarrow> nat \<Rightarrow> (error + VirtualFileSystem) \<Rightarrow> (error + nat) \<times> store \<Rightarrow> bool" where
  "refines h v expected outcome =
     (case outcome of
        (Inl e, h') \<Rightarrow> h' = h \<and> expected = Inl e
      | (Inr r, h') \<Rightarrow> (\<exists>ext. h' = h @ ext) \<and> is_snapshot h' r
                          \<and> expected = Inr (snapshot_of h' r))"

text \<open>
  The store after \<^verbatim>\<open>new VirtualFileSystem()\<close>, the root at address 0, and the store after
  \<^verbatim>\<open>createFolder("folder")\<close> and \<^verbatim>\<open>createFile("folder/file1.txt", "Content 1")\<close> on it: the
  three snapshots are at the addresses 0, 2 and 5.
\<close>

definition empty_store :: store where
  "empty_store = [FolderObject [] [] []]"

definition store_with_file :: store where
  "store_with_file =
     [FolderObject [] [] [],
      FolderObject ''folder'' [] [],
      FolderObject [] [(''folder'', 1)] [],
      FileObject (VirtualFile ''file1.txt'' ''Content 1'' []),
      FolderObject ''folder'' [(''file1.txt'', 3)] [],
      FolderObject [] [(''folder'', 4)] []]"

section \<open>Facts about paths and records\<close>

lemma split_slash_nonempty: "split_slash s \<noteq> []"
  by (induction s) (auto split: list.splits)

lemma split_slash_no_slash: "p \<in> set (split_slash s) \<Longrightarrow> CHR ''/'' \<notin> set p"
  by (induction s arbitrary: p) (auto split: if_splits list.splits)

lemma path_parts_clean: "p \<in> set (path_parts path) \<Longrightarrow> p \<noteq> [] \<and> CHR ''/'' \<notin> set p"
  by (auto simp: path_parts_def dest: split_slash_no_slash)

lemma split_slash_plain: "CHR ''/'' \<notin> set p \<Longrightarrow> split_slash p = [p]"
  by (induction p) auto

lemma split_slash_append:
  "CHR ''/'' \<notin> set p \<Longrightarrow> split_slash (p @ CHR ''/'' # rest) = p # split_slash rest"
  by (induction p) auto

lemma split_slash_join:
  "ps \<noteq> [] \<Longrightarrow> \<forall>p\<in>set ps. CHR ''/'' \<notin> set p \<Longrightarrow> split_slash (join_slash ps) = ps"
  by (induction ps rule: join_slash.induct) (auto simp: split_slash_plain split_slash_append)

lemma path_parts_join:
  assumes "\<forall>p\<in>set ps. p \<noteq> [] \<and> CHR ''/'' \<notin> set p"
  shows "path_parts (join_slash ps) = ps"
proof (cases "ps = []")
  case True
  then show ?thesis by (simp add: path_parts_def)
next
  case False
  with assms have "split_slash (join_slash ps) = ps" by (simp add: split_slash_join)
  with assms show ?thesis by (simp add: path_parts_def filter_id_conv)
qed

lemma parent_parts_butlast: "parent_parts path = butlast (path_parts path)"
  unfolding parent_parts_def
  by (rule path_parts_join) (auto dest: in_set_butlastD path_parts_clean)

lemma map_of_replace_own:
  "map_of ps k \<noteq> None \<Longrightarrow> map_of (replace_own k v ps) k' = (if k' = k then Some v else map_of ps k')"
  by (induction ps) auto

lemma map_of_insert_index:
  "map_of ps k = None \<Longrightarrow> map_of (insert_index k v ps) k' = (if k' = k then Some v else map_of ps k')"
  by (induction ps) (auto split: if_splits)

lemma map_of_obj_set:
  "map_of (obj_set ps k v) k' = (if k' = k then Some v else map_of ps k')"
  by (auto simp: obj_set_def map_of_replace_own map_of_insert_index map_add_def split: option.splits)

lemma obj_get_obj_set:
  "obj_get (obj_set ps k v) k' = (if k' = k then Own v else obj_get ps k')"
  by (simp add: obj_get_def map_of_obj_set)

lemma map_of_obj_delete:
  "map_of (obj_delete ps k) k' = (if k' = k then None else map_of ps k')"
  by (induction ps) (auto simp: obj_delete_def)

lemma obj_get_obj_delete:
  "obj_get (obj_delete ps k) k' = (if k' = k then obj_get [] k else obj_get ps k')"
  by (simp add: obj_get_def map_of_obj_delete)

subsection \<open>The resolver\<close>

lemma getFolder_loop_error:
  "getFolder_loop path cur parts = Inl e \<Longrightarrow> e = FolderNotFound path"
  by (induction parts arbitrary: cur)
     (auto split: property.splits VirtualItem.splits)

lemma getFolder_loop_path_irrelevant:
  "getFolder_loop p cur parts = Inr d \<Longrightarrow> getFolder_loop q cur parts = Inr d"
  by (induction parts arbitrary: cur)
     (auto split: property.splits VirtualItem.splits)

lemma getFolder_loop_modify:
  "getFolder_loop p cur parts = Inr d \<Longrightarrow>
   getFolder_loop q (modify_folder parts f cur) parts = Inr (f d)"
  by (induction parts arbitrary: cur)
     (auto simp: obj_get_obj_set split: property.splits VirtualItem.splits)

lemma getFolder_loop_Inr_iff:
  "(getFolder_loop p cur parts = Inr d) = (getFolder_loop q cur parts = Inr d)"
  by (blast dest: getFolder_loop_path_irrelevant)

lemma getParentFolderAndName_Inr:
  "getParentFolderAndName vfs path = Inr (parentFolder, name) \<longleftrightarrow>
     path_parts path \<noteq> [] \<and> name = last (path_parts path)
     \<and> getFolder_loop [] (root vfs) (butlast (path_parts path)) = Inr parentFolder"
proof -
  have "getFolder vfs (join_slash (butlast (path_parts path)))
          = getFolder_loop (join_slash (butlast (path_parts path))) (root vfs)
              (butlast (path_parts path))"
    using parent_parts_butlast [of path] by (simp add: getFolder_def parent_parts_def)
  then show ?thesis
    unfolding getParentFolderAndName_def Let_def
    using getFolder_loop_Inr_iff [of "join_slash (butlast (path_parts path))" "root vfs"
        "butlast (path_parts path)" parentFolder "[]"]
    by (auto split: sum.splits)
qed

lemma getParentFolderAndName_Inl:
  "getParentFolderAndName vfs path = Inl e \<Longrightarrow>
     e = InvalidPath path \<or> e = FolderNotFound (join_slash (butlast (path_parts path)))"
  unfolding getParentFolderAndName_def getFolder_def Let_def
  by (auto split: sum.splits if_splits dest: getFolder_loop_error)

lemma getParentFolderAndName_modify:
  assumes "getParentFolderAndName vfs path = Inr (parentFolder, name)"
  shows "getParentFolderAndName (VirtualFileSystem (modify_folder (parent_parts path) f (root vfs))) path
           = Inr (f parentFolder, name)"
  using assms unfolding getParentFolderAndName_Inr parent_parts_butlast
  by (auto dest: getFolder_loop_modify)

subsection \<open>Reading after writing\<close>

lemma getFile_Inr:
  "getFile vfs path = Inr file \<longleftrightarrow>
     (\<exists>parentFolder name. getParentFolderAndName vfs path = Inr (parentFolder, name)
        \<and> obj_get (folder_items parentFolder) name = Own (File file))"
  unfolding getFile_def
  by (auto split: sum.splits property.splits VirtualItem.splits)

lemma getFile_after_set_item:
  assumes "getParentFolderAndName vfs path = Inr (parentFolder, name)"
  shows "getFile (VirtualFileSystem (modify_folder (parent_parts path)
            (set_item name (File file)) (root vfs))) path = Inr file"
  using getParentFolderAndName_modify [OF assms, of "set_item name (File file)"]
  by (simp add: getFile_def set_item_def obj_get_obj_set)

lemma updateFile_Inr:
  assumes "getFile vfs path = Inr file"
  shows "\<exists>updated. updateFile vfs path content metaData = Inr updated
     \<and> getFile updated path
         = Inr (VirtualFile (file_name file) content
                 (case metaData of None \<Rightarrow> file_metaData file | Some m \<Rightarrow> m))"
proof -
  from assms obtain parentFolder name where
    p: "getParentFolderAndName vfs path = Inr (parentFolder, name)"
    by (auto simp: getFile_Inr)
  then have n: "name = last (path_parts path)" by (simp add: getParentFolderAndName_Inr)
  show ?thesis
    using assms getFile_after_set_item [OF p] by (simp add: updateFile_def n)
qed

lemma createFile_args:
  "createFile vfs path (Some (or_default content_arg [])) (Some (or_default metaData_arg []))
     = createFile vfs path content_arg metaData_arg"
  by (simp add: createFile_def or_default_def)

lemma vfs_with_folder_created: "createFolder empty_vfs ''folder'' None = Inr vfs_with_folder" by code_simp
lemma vfs_with_file_created: "createFile empty_vfs ''x'' (Some ''A'') (Some [(''tag'', JNum 1)]) = Inr vfs_with_file" by code_simp

subsection \<open>Creating\<close>

lemma vfs_with_flagged_file_created:
  "createFile empty_vfs ''f'' (Some ''x'') (Some [(''isSystem'', JNum 1)]) = Inr vfs_with_flagged_file"
  by code_simp

lemma create_on_fresh_name:
  assumes "getParentFolderAndName vfs path = Inr (parentFolder, name)"
    and "obj_get (folder_items parentFolder) name = Undefined"
  shows "createFile vfs path content_arg metaData_arg
           = Inr (VirtualFileSystem (modify_folder (parent_parts path)
                (set_item name (File (VirtualFile name (or_default content_arg [])
                    (or_default metaData_arg [])))) (root vfs)))"
    and "createFolder vfs path metaData_arg
           = Inr (VirtualFileSystem (modify_folder (parent_parts path)
                (set_item name (Folder (VirtualFolder name [] (or_default metaData_arg []))))
                (root vfs)))"
  using assms
  by (simp_all add: createFile_def createFolder_def createVirtualFile_def
      createVirtualFolder_def Let_def)

lemma create_on_taken_name:
  assumes "getParentFolderAndName vfs path = Inr (parentFolder, name)"
    and "obj_get (folder_items parentFolder) name \<noteq> Undefined"
  shows "createFile vfs path content_arg metaData_arg = Inl (AlreadyExists name path)"
    and "createFolder vfs path metaData_arg = Inl (AlreadyExists name path)"
  using assms
  by (cases "obj_get (folder_items parentFolder) name";
      simp add: createFile_def createFolder_def Let_def)+

subsection \<open>Children of one folder\<close>

lemma split_slash_concat:
  "split_slash (a @ CHR ''/'' # b) = split_slash a @ split_slash b"
proof (induction a)
  case Nil
  then show ?case by simp
next
  case (Cons c a)
  then show ?case
    using split_slash_nonempty [of a]
    by (cases "split_slash a") auto
qed

lemma path_parts_concat: "path_parts (a @ CHR ''/'' # b) = path_parts a @ path_parts b"
  by (simp add: path_parts_def split_slash_concat)

lemma path_parts_plain: "n \<noteq> [] \<Longrightarrow> CHR ''/'' \<notin> set n \<Longrightarrow> path_parts n = [n]"
  by (simp add: path_parts_def split_slash_plain)

lemma getFolder_loop_append:
  "getFolder_loop p cur (xs @ ys)
     = (case getFolder_loop p cur xs of Inl e \<Rightarrow> Inl e | Inr d \<Rightarrow> getFolder_loop p d ys)"
  by (induction xs arbitrary: cur) (auto split: property.splits VirtualItem.splits)

lemma exists_iff:
  "exists vfs q \<longleftrightarrow>
     path_parts q \<noteq> []
     \<and> (\<exists>d. getFolder_loop [] (root vfs) (butlast (path_parts q)) = Inr d
            \<and> obj_get (folder_items d) (last (path_parts q)) \<noteq> Undefined)"
proof (cases "getParentFolderAndName vfs q")
  case (Inl e)
  then have "\<not> exists vfs q" by (simp add: exists_def getItem_def)
  moreover have "\<not> (path_parts q \<noteq> [] \<and> (\<exists>d. getFolder_loop [] (root vfs) (butlast (path_parts q)) = Inr d))"
    using Inl getParentFolderAndName_Inr [of vfs q] by auto
  ultimately show ?thesis by blast
next
  case (Inr r)
  obtain d n where r: "getParentFolderAndName vfs q = Inr (d, n)"
    using Inr by (cases r) simp
  then have "exists vfs q \<longleftrightarrow> obj_get (folder_items d) n \<noteq> Undefined"
    by (simp add: exists_def getItem_def)
  moreover from r have "path_parts q \<noteq> []" "n = last (path_parts q)"
    "getFolder_loop [] (root vfs) (butlast (path_parts q)) = Inr d"
    by (simp_all add: getParentFolderAndName_Inr)
  ultimately show ?thesis by simp
qed

lemma listItems_Inr:
  "getFolder vfs folder = Inr d \<Longrightarrow> listItems vfs (Some folder) = Inr (Object_values (folder_items d))"
  by (simp add: listItems_def or_default_def)

lemma create_child_appends:
  assumes d: "getFolder vfs folder = Inr d"
    and n: "child_name c \<noteq> []" "CHR ''/'' \<notin> set (child_name c)"
    and fresh: "obj_get (folder_items d) (child_name c) = Undefined"
    and idx: "\<not> is_array_index (child_name c)"
  shows "\<exists>vfs'. create_child vfs folder c = Inr vfs'
           \<and> getFolder vfs' folder
               = Inr (VirtualFolder (folder_name d)
                       (folder_items d @ [(child_name c, created_item c)]) (folder_metaData d))"
proof -
  let ?path = "folder @ CHR ''/'' # child_name c"
  have parts: "path_parts ?path = path_parts folder @ [child_name c]"
    using n by (simp add: path_parts_concat path_parts_plain)
  from d have loop: "getFolder_loop [] (root vfs) (path_parts folder) = Inr d"
    by (auto simp: getFolder_def dest: getFolder_loop_path_irrelevant)
  have p: "getParentFolderAndName vfs ?path = Inr (d, child_name c)"
    using loop by (simp add: getParentFolderAndName_Inr parts)
  have pp: "parent_parts ?path = path_parts folder"
    by (simp add: parent_parts_butlast parts)
  have own: "map_of (folder_items d) (child_name c) = None"
    using fresh by (auto simp: obj_get_def split: option.splits if_splits)
  have set: "set_item (child_name c) (created_item c) d
      = VirtualFolder (folder_name d)
          (folder_items d @ [(child_name c, created_item c)]) (folder_metaData d)"
    using own idx by (simp add: set_item_def obj_set_def)
  have after: "getFolder (VirtualFileSystem (modify_folder (path_parts folder)
        (set_item (child_name c) (created_item c)) (root vfs))) folder
      = Inr (set_item (child_name c) (created_item c) d)"
    using getFolder_loop_modify [OF loop] by (simp add: getFolder_def)
  show ?thesis
  proof (cases c)
    case (NewFile name content)
    then show ?thesis
      using create_on_fresh_name(1) [OF p fresh, of "Some content" None] after set pp
      by (simp add: or_default_def)
  next
    case (NewFolder name)
    then show ?thesis
      using create_on_fresh_name(2) [OF p fresh, of None] after set pp
      by (simp add: or_default_def)
  qed
qed

lemma not_exists_below:
  assumes q: "path_parts q = ps @ qs" and ps: "ps \<noteq> []"
    and d: "getFolder_loop [] (root vfs) (butlast ps) = Inr d"
    and gone: "obj_get (folder_items d) (last ps) = Undefined"
  shows "\<not> exists vfs q"
proof (cases "qs = []")
  case True
  with q d gone show ?thesis by (auto simp: exists_iff)
next
  case False
  then have "butlast (path_parts q) = butlast ps @ (last ps # butlast qs)"
    using q ps by (simp add: butlast_append)
  then have "getFolder_loop [] (root vfs) (butlast (path_parts q)) = Inl (FolderNotFound [])"
    using d gone by (simp add: getFolder_loop_append)
  then show ?thesis by (simp add: exists_iff)
qed

lemma vfs_with_files_created:
  "create_children vfs_with_folder ''folder''
     [NewFile ''file1.txt'' ''Content 1'', NewFile ''file2.txt'' ''Content 2''] = Inr vfs_with_files"
  by code_simp

subsection \<open>Missing segments\<close>

lemma missing_segment_fails:
  assumes "getFolder_loop q cur pre = Inr d"
    and "\<forall>nxt. obj_get (folder_items d) part \<noteq> Own (Folder nxt)"
  shows "getFolder_loop p cur (pre @ part # rest) = Inl (FolderNotFound p)"
proof -
  from assms(1) have "getFolder_loop p cur pre = Inr d"
    by (rule getFolder_loop_path_irrelevant)
  moreover from assms(2) have "getFolder_loop p d (part # rest) = Inl (FolderNotFound p)"
    by (auto split: property.splits VirtualItem.splits)
  ultimately show ?thesis by (simp add: getFolder_loop_append)
qed

lemma failure_has_missing_segment:
  "getFolder_loop p cur parts = Inl e \<Longrightarrow>
     \<exists>pre part rest d. parts = pre @ part # rest \<and> getFolder_loop [] cur pre = Inr d
        \<and> (\<forall>nxt. obj_get (folder_items d) part \<noteq> Own (Folder nxt))"
proof (induction parts arbitrary: cur)
  case Nil
  then show ?case by simp
next
  case (Cons a parts)
  show ?case
  proof (cases "\<exists>nxt. obj_get (folder_items cur) a = Own (Folder nxt)")
    case False
    then have "a # parts = [] @ a # parts \<and> getFolder_loop [] cur [] = Inr cur
        \<and> (\<forall>nxt. obj_get (folder_items cur) a \<noteq> Own (Folder nxt))"
      by simp
    then show ?thesis by blast
  next
    case True
    then obtain nxt where n: "obj_get (folder_items cur) a = Own (Folder nxt)" by blast
    with Cons.prems have "getFolder_loop p nxt parts = Inl e" by simp
    from Cons.IH [OF this] obtain pre part rest d where
      "parts = pre @ part # rest" "getFolder_loop [] nxt pre = Inr d"
      "\<forall>nxt. obj_get (folder_items d) part \<noteq> Own (Folder nxt)"
      by blast
    with n have "a # parts = (a # pre) @ part # rest \<and> getFolder_loop [] cur (a # pre) = Inr d
        \<and> (\<forall>nxt. obj_get (folder_items d) part \<noteq> Own (Folder nxt))"
      by simp
    then show ?thesis by blast
  qed
qed

lemma getFolder_join:
  assumes "\<forall>p \<in> set pre. p \<noteq> [] \<and> CHR ''/'' \<notin> set p"
  shows "getFolder vfs (join_slash pre) = Inr d \<longleftrightarrow> getFolder_loop [] (root vfs) pre = Inr d"
  using getFolder_loop_Inr_iff [of "join_slash pre" "root vfs" pre d "[]"]
  by (simp add: getFolder_def path_parts_join [OF assms])

lemma getFolder_Inr_iff:
  "getFolder vfs path = Inr d \<longleftrightarrow> getFolder_loop [] (root vfs) (path_parts path) = Inr d"
  using getFolder_loop_Inr_iff [of path "root vfs" "path_parts path" d "[]"]
  by (simp add: getFolder_def)

lemma clean_prefix:
  "path_parts path = pre @ more \<Longrightarrow> \<forall>p \<in> set pre. p \<noteq> [] \<and> CHR ''/'' \<notin> set p"
  using path_parts_clean [of _ path] by auto

lemma clean_prefix_butlast:
  "butlast (path_parts path) = pre @ more \<Longrightarrow> \<forall>p \<in> set pre. p \<noteq> [] \<and> CHR ''/'' \<notin> set p"
  using path_parts_clean [of _ path] in_set_butlastD [of _ "path_parts path"] by auto

lemma getFolder_missing_segment:
  assumes "path_parts path = pre @ part # rest"
    and "getFolder vfs (join_slash pre) = Inr d"
    and "\<forall>nxt. obj_get (folder_items d) part \<noteq> Own (Folder nxt)"
  shows "getFolder vfs path = Inl (FolderNotFound path)"
proof -
  from assms(2) have "getFolder_loop [] (root vfs) pre = Inr d"
    by (simp add: getFolder_join [OF clean_prefix [OF assms(1)]])
  from missing_segment_fails [OF this assms(3)] show ?thesis
    by (simp add: getFolder_def assms(1))
qed

lemma getParentFolderAndName_missing_segment:
  assumes "butlast (path_parts path) = pre @ part # rest"
    and "getFolder vfs (join_slash pre) = Inr d"
    and "\<forall>nxt. obj_get (folder_items d) part \<noteq> Own (Folder nxt)"
  shows "getParentFolderAndName vfs path
           = Inl (FolderNotFound (join_slash (butlast (path_parts path))))"
proof -
  from assms(1) have ne: "path_parts path \<noteq> []" by auto
  from assms(2) have "getFolder_loop [] (root vfs) pre = Inr d"
    by (simp add: getFolder_join [OF clean_prefix_butlast [OF assms(1)]])
  from missing_segment_fails [OF this assms(3)]
  have "getFolder vfs (join_slash (butlast (path_parts path)))
          = Inl (FolderNotFound (join_slash (butlast (path_parts path))))"
    using parent_parts_butlast [of path]
    by (simp add: getFolder_def parent_parts_def assms(1))
  with ne show ?thesis by (simp add: getParentFolderAndName_def Let_def)
qed

lemma getFolder_failure_segment:
  assumes "getFolder vfs path = Inl e"
  shows "\<exists>pre part rest d. path_parts path = pre @ part # rest
           \<and> getFolder vfs (join_slash pre) = Inr d
           \<and> (\<forall>nxt. obj_get (folder_items d) part \<noteq> Own (Folder nxt))"
proof -
  from assms obtain pre part rest d where
    1: "path_parts path = pre @ part # rest" and 2: "getFolder_loop [] (root vfs) pre = Inr d"
    and 3: "\<forall>nxt. obj_get (folder_items d) part \<noteq> Own (Folder nxt)"
    unfolding getFolder_def by (blast dest: failure_has_missing_segment)
  from 2 have "getFolder vfs (join_slash pre) = Inr d"
    by (simp add: getFolder_join [OF clean_prefix [OF 1]])
  with 1 3 show ?thesis by blast
qed

subsection \<open>What a write leaves alone\<close>

lemma getFolder_loop_modify_prefix:
  "getFolder_loop p cur pre = Inr d \<Longrightarrow>
   getFolder_loop q (modify_folder (pre @ more) f cur) pre = Inr (modify_folder more f d)"
  by (induction pre arbitrary: cur)
     (auto simp: obj_get_obj_set split: property.splits VirtualItem.splits)

lemma replace_own_keys: "map fst (replace_own k v ps) = map fst ps"
  by (induction ps) auto

lemma obj_set_keys: "map_of ps k \<noteq> None \<Longrightarrow> map fst (obj_set ps k v) = map fst ps"
  by (simp add: obj_set_def replace_own_keys)

lemma replace_own_others:
  "filter (\<lambda>p. fst p \<noteq> k) (replace_own k v ps) = filter (\<lambda>p. fst p \<noteq> k) ps"
  by (induction ps) auto

lemma insert_index_others:
  "filter (\<lambda>p. fst p \<noteq> k) (insert_index k v ps) = filter (\<lambda>p. fst p \<noteq> k) ps"
  by (induction ps) auto

lemma obj_set_others:
  "filter (\<lambda>p. fst p \<noteq> k) (obj_set ps k v) = filter (\<lambda>p. fst p \<noteq> k) ps"
  by (simp add: obj_set_def replace_own_others insert_index_others)


lemma modify_folder_level:
  assumes "getFolder_loop [] cur (pre @ part # rest) = Inr target"
  shows "\<exists>d below. getFolder_loop [] cur pre = Inr d
     \<and> getFolder_loop [] (modify_folder (pre @ part # rest) f cur) (pre @ [part]) = Inr below
     \<and> getFolder_loop [] (modify_folder (pre @ part # rest) f cur) pre
         = Inr (VirtualFolder (folder_name d) (obj_set (folder_items d) part (Folder below))
                 (folder_metaData d))
     \<and> map fst (obj_set (folder_items d) part (Folder below)) = map fst (folder_items d)
     \<and> filter (\<lambda>p. fst p \<noteq> part) (obj_set (folder_items d) part (Folder below))
         = filter (\<lambda>p. fst p \<noteq> part) (folder_items d)"
proof -
  from assms obtain d where d: "getFolder_loop [] cur pre = Inr d"
    and rest: "getFolder_loop [] d (part # rest) = Inr target"
    by (auto simp: getFolder_loop_append split: sum.splits)
  from rest obtain nxt where nxt: "obj_get (folder_items d) part = Own (Folder nxt)"
    by (auto split: property.splits VirtualItem.splits)
  let ?below = "modify_folder rest f nxt"
  let ?d' = "VirtualFolder (folder_name d) (obj_set (folder_items d) part (Folder ?below))
                 (folder_metaData d)"
  have 1: "getFolder_loop [] (modify_folder (pre @ part # rest) f cur) pre = Inr ?d'"
    using getFolder_loop_modify_prefix [OF d, of "[]" "part # rest" f] nxt by simp
  then have 2: "getFolder_loop [] (modify_folder (pre @ part # rest) f cur) (pre @ [part])
      = Inr ?below"
    by (simp add: getFolder_loop_append obj_get_obj_set)
  from nxt have own: "map_of (folder_items d) part \<noteq> None"
    by (auto simp: obj_get_def split: option.splits if_splits)
  show ?thesis
    by (intro exI [of _ d] exI [of _ ?below] conjI d 1 2 obj_set_keys [OF own] obj_set_others)
qed



lemma modify_folder_frame:
  assumes f: "\<And>d k. k \<noteq> name \<Longrightarrow> obj_get (folder_items (f d)) k = obj_get (folder_items d) k"
  shows "take (Suc (length loc)) (ws @ [k]) \<noteq> loc @ [name] \<Longrightarrow>
     ((\<exists>e. getFolder_loop [] (modify_folder loc f cur) ws = Inl e)
        = (\<exists>e. getFolder_loop [] cur ws = Inl e))
     \<and> (\<forall>d' d. getFolder_loop [] (modify_folder loc f cur) ws = Inr d'
           \<longrightarrow> getFolder_loop [] cur ws = Inr d
           \<longrightarrow> (obj_get (folder_items d') k = Undefined) = (obj_get (folder_items d) k = Undefined)
               \<and> (\<forall>x. (obj_get (folder_items d') k = Own (File x))
                        = (obj_get (folder_items d) k = Own (File x))))"
proof (induction loc arbitrary: cur ws)
  case Nil
  show ?case
  proof (cases ws)
    case Nil
    with Nil.prems have "k \<noteq> name" by simp
    with Nil show ?thesis by (simp add: f)
  next
    case (Cons w ws')
    with Nil.prems have "w \<noteq> name" by simp
    then show ?thesis by (simp add: Cons f)
  qed
next
  case step: (Cons l ls)
  show ?case
  proof (cases "\<exists>nxt. obj_get (folder_items cur) l = Own (Folder nxt)")
    case False
    then have "modify_folder (l # ls) f cur = cur"
      by (auto split: property.splits VirtualItem.splits)
    then show ?thesis by simp
  next
    case True
    then obtain nxt where nxt: "obj_get (folder_items cur) l = Own (Folder nxt)" by blast
    show ?thesis
    proof (cases ws)
      case Nil
      then show ?thesis using nxt by (auto simp: obj_get_obj_set)
    next
      case ws: (Cons w ws')
      show ?thesis
      proof (cases "w = l")
        case False
        then show ?thesis using nxt by (simp add: ws obj_get_obj_set)
      next
        case True
        with ws step.prems have "take (Suc (length ls)) (ws' @ [k]) \<noteq> ls @ [name]" by simp
        from step.IH [OF this, of nxt] show ?thesis
          using nxt True by (simp add: ws obj_get_obj_set)
      qed
    qed
  qed
qed

lemma getFile_cases:
  "getFile vfs q =
     (if path_parts q = [] then Inl (InvalidPath q)
      else
        (case getFolder_loop [] (root vfs) (butlast (path_parts q)) of
           Inl e \<Rightarrow> Inl (FolderNotFound (join_slash (butlast (path_parts q))))
         | Inr d \<Rightarrow>
             (case obj_get (folder_items d) (last (path_parts q)) of
                Own (File x) \<Rightarrow> Inr x
              | _ \<Rightarrow> Inl (FileNotFound q))))"
proof (cases "getParentFolderAndName vfs q")
  case (Inl e)
  show ?thesis
  proof (cases "path_parts q = []")
    case True
    then show ?thesis by (simp add: getFile_def getParentFolderAndName_def)
  next
    case False
    with Inl have e: "e = FolderNotFound (join_slash (butlast (path_parts q)))"
      by (auto simp: getParentFolderAndName_def getFolder_def Let_def
          dest: getFolder_loop_error split: sum.splits)
    have "\<not> (\<exists>d. getFolder_loop [] (root vfs) (butlast (path_parts q)) = Inr d)"
      using Inl getParentFolderAndName_Inr [of vfs q] False by auto
    then obtain e' where "getFolder_loop [] (root vfs) (butlast (path_parts q)) = Inl e'"
      by (cases "getFolder_loop [] (root vfs) (butlast (path_parts q))") auto
    with Inl e False show ?thesis by (simp add: getFile_def)
  qed
next
  case (Inr r)
  obtain d n where r: "getParentFolderAndName vfs q = Inr (d, n)"
    using Inr by (cases r) simp
  then have "path_parts q \<noteq> []" "n = last (path_parts q)"
    "getFolder_loop [] (root vfs) (butlast (path_parts q)) = Inr d"
    unfolding getParentFolderAndName_Inr by blast+
  with r show ?thesis by (simp add: getFile_def)
qed

lemma write_frame:
  assumes f: "\<And>d k. k \<noteq> last (path_parts path)
               \<Longrightarrow> obj_get (folder_items (f d)) k = obj_get (folder_items d) k"
    and ne: "path_parts path \<noteq> []"
    and q: "take (length (path_parts path)) (path_parts q) \<noteq> path_parts path"
  shows "exists (VirtualFileSystem (modify_folder (parent_parts path) f (root vfs))) q
           = exists vfs q
     \<and> getFile (VirtualFileSystem (modify_folder (parent_parts path) f (root vfs))) q
           = getFile vfs q
     \<and> readFile (VirtualFileSystem (modify_folder (parent_parts path) f (root vfs))) q
           = readFile vfs q"
proof (cases "path_parts q = []")
  case True
  then show ?thesis by (simp add: exists_iff getFile_cases readFile_def)
next
  case False
  let ?loc = "butlast (path_parts path)"
  let ?ws = "butlast (path_parts q)"
  let ?k = "last (path_parts q)"
  let ?root' = "modify_folder ?loc f (root vfs)"
  have "take (Suc (length ?loc)) (?ws @ [?k]) \<noteq> ?loc @ [last (path_parts path)]"
    using q ne False by simp
  from modify_folder_frame [of "last (path_parts path)" f ?loc ?ws ?k "root vfs", OF f this]
  have fail: "(\<exists>e. getFolder_loop [] ?root' ?ws = Inl e)
        = (\<exists>e. getFolder_loop [] (root vfs) ?ws = Inl e)"
    and same: "\<And>d' d. getFolder_loop [] ?root' ?ws = Inr d' \<Longrightarrow>
           getFolder_loop [] (root vfs) ?ws = Inr d \<Longrightarrow>
           (obj_get (folder_items d') ?k = Undefined) = (obj_get (folder_items d) ?k = Undefined)
           \<and> (\<forall>x. (obj_get (folder_items d') ?k = Own (File x))
                    = (obj_get (folder_items d) ?k = Own (File x)))"
    by blast+
  show ?thesis
  proof (cases "getFolder_loop [] (root vfs) ?ws")
    case (Inl e)
    with fail obtain e' where "getFolder_loop [] ?root' ?ws = Inl e'" by blast
    with Inl show ?thesis
      by (simp add: exists_iff getFile_cases readFile_def parent_parts_butlast)
  next
    case (Inr d)
    with fail obtain d' where d': "getFolder_loop [] ?root' ?ws = Inr d'"
      by (cases "getFolder_loop [] ?root' ?ws") auto
    from same [OF d' Inr] have
      u: "(obj_get (folder_items d') ?k = Undefined) = (obj_get (folder_items d) ?k = Undefined)"
      and x: "\<And>x. (obj_get (folder_items d') ?k = Own (File x))
                    = (obj_get (folder_items d) ?k = Own (File x))"
      by blast+
    have g: "(case obj_get (folder_items d') ?k of Own (File x) \<Rightarrow> Inr x | _ \<Rightarrow> Inl (FileNotFound q))
        = (case obj_get (folder_items d) ?k of Own (File x) \<Rightarrow> Inr x | _ \<Rightarrow> Inl (FileNotFound q))"
    proof (cases "\<exists>x. obj_get (folder_items d) ?k = Own (File x)")
      case True
      then obtain x0 where "obj_get (folder_items d) ?k = Own (File x0)" by blast
      moreover with x have "obj_get (folder_items d') ?k = Own (File x0)" by simp
      ultimately show ?thesis by simp
    next
      case False
      with x have "\<not> (\<exists>x. obj_get (folder_items d') ?k = Own (File x))" by simp
      with False show ?thesis
        by (auto split: property.splits VirtualItem.splits)
    qed
    from Inr d' u g False show ?thesis
      by (simp add: exists_iff getFile_cases readFile_def parent_parts_butlast)
  qed
qed

lemma vfs_two_folders_created:
  "create_children empty_vfs [] [NewFolder ''a'', NewFolder ''b'', NewFile ''a/f'' ''1'',
       NewFile ''b/g'' ''2'']
     = Inr vfs_two_folders"
  by code_simp

section \<open>Facts about the store\<close>

lemma item_at_extend: "a < length h \<Longrightarrow> item_at (h @ ext) a = item_at h a"
proof (induction a rule: less_induct)
  case (less a)
  show ?case
  proof (cases "h ! a")
    case (FileObject f)
    with less.prems show ?thesis by (simp add: item_at.simps [of _ a] nth_append)
  next
    case (FolderObject name children metaData)
    have "\<forall>p. snd p < a \<longrightarrow> item_at (h @ ext) (snd p) = item_at h (snd p)"
      using less.IH less.prems by simp
    with less.prems FolderObject show ?thesis
      by (simp add: item_at.simps [of _ a] nth_append)
  qed
qed

lemma items_at_extend:
  "\<forall>c \<in> set (map snd children). c < length h \<Longrightarrow>
     items_at (h @ ext) children = items_at h children"
  by (simp add: items_at_def item_at_extend)

lemma item_at_file:
  "a < length h \<Longrightarrow> h ! a = FileObject f \<Longrightarrow> item_at h a = File f"
  by (simp add: item_at.simps [of h a])

lemma item_at_folder:
  assumes "wf_store h" "a < length h" "h ! a = FolderObject name children metaData"
  shows "item_at h a = Folder (VirtualFolder name (items_at h children) metaData)"
proof -
  have "\<forall>p \<in> set children. snd p < a"
    using assms by (auto simp: wf_store_def)
  then have "map (\<lambda>p. (fst p, if snd p < a then item_at h (snd p) else no_item)) children
      = items_at h children"
    by (simp add: items_at_def)
  with assms show ?thesis by (simp add: item_at.simps [of h a])
qed

lemma folder_at_folder:
  assumes "wf_store h" "a < length h" "h ! a = FolderObject name children metaData"
  shows "folder_at h a = VirtualFolder name (items_at h children) metaData"
  using item_at_folder [OF assms] by (simp add: folder_at_def)

lemma item_at_is_folder:
  assumes "wf_store h" "a < length h"
  shows "is_folder_object (h ! a) \<longleftrightarrow> item_at h a = Folder (folder_at h a)"
proof (cases "h ! a")
  case (FileObject f)
  with assms show ?thesis by (simp add: item_at_file)
next
  case (FolderObject name children metaData)
  with assms show ?thesis
    by (simp add: item_at_folder [OF assms FolderObject] folder_at_def)
qed

lemma map_of_items_at:
  "map_of (items_at h children) k = map_option (item_at h) (map_of children k)"
  by (induction children) (auto simp: items_at_def)

lemma obj_get_items_at:
  "obj_get (items_at h children) k
     = (case obj_get children k of
          Own c \<Rightarrow> Own (item_at h c) | Undefined \<Rightarrow> Undefined | Inherited \<Rightarrow> Inherited)"
  by (simp add: obj_get_def map_of_items_at split: option.splits)

lemma replace_own_items_at:
  "items_at h (replace_own k c children) = replace_own k (item_at h c) (items_at h children)"
  by (induction children) (auto simp: items_at_def)

lemma insert_index_items_at:
  "items_at h (insert_index k c children) = insert_index k (item_at h c) (items_at h children)"
  by (induction children) (auto simp: items_at_def)

lemma obj_set_items_at:
  "items_at h (obj_set children k c) = obj_set (items_at h children) k (item_at h c)"
  by (auto simp: obj_set_def map_of_items_at replace_own_items_at insert_index_items_at)
     (simp_all add: items_at_def)

lemma obj_delete_items_at:
  "items_at h (obj_delete children k) = obj_delete (items_at h children) k"
  by (induction children) (auto simp: items_at_def obj_delete_def)

lemma set_replace_own: "p \<in> set (replace_own k c ps) \<Longrightarrow> snd p = c \<or> p \<in> set ps"
  by (induction ps) (auto split: if_splits)

lemma set_insert_index: "p \<in> set (insert_index k c ps) \<Longrightarrow> snd p = c \<or> p \<in> set ps"
  by (induction ps) (auto split: if_splits)

lemma set_obj_set: "p \<in> set (obj_set ps k c) \<Longrightarrow> snd p = c \<or> p \<in> set ps"
  by (auto simp: obj_set_def dest: set_replace_own set_insert_index split: if_splits)

lemma set_obj_delete: "p \<in> set (obj_delete ps k) \<Longrightarrow> p \<in> set ps"
  by (auto simp: obj_delete_def)

lemma wf_store_alloc:
  assumes "wf_store h" "\<forall>c \<in> set (pointers obj). c < length h"
  shows "wf_store (h @ [obj])"
  using assms by (auto simp: wf_store_def nth_append less_Suc_eq)

lemma wf_store_pointers:
  "wf_store h \<Longrightarrow> a < length h \<Longrightarrow> h ! a = FolderObject name children metaData \<Longrightarrow>
     (k, c) \<in> set children \<Longrightarrow> c < a"
  by (force simp: wf_store_def)

lemma obj_get_Own_in_set: "obj_get ps k = Own c \<Longrightarrow> (k, c) \<in> set ps"
  by (auto simp: obj_get_def split: option.splits if_splits dest: map_of_SomeD)

lemma copy_path_correct:
  assumes wf: "wf_store h"
    and ch: "\<And>children. \<forall>p \<in> set children. snd p < length h \<Longrightarrow>
               (\<forall>p \<in> set (change children). snd p < length h)
               \<and> items_at h (change children) = change' (items_at h children)"
  shows "a < length h \<Longrightarrow> is_folder_object (h ! a) \<Longrightarrow>
         copy_path h a parts change = (r, h') \<Longrightarrow>
         (\<exists>ext. h' = h @ ext) \<and> wf_store h' \<and> r < length h' \<and> is_folder_object (h' ! r)
         \<and> folder_at h' r
             = modify_folder parts
                 (\<lambda>d. VirtualFolder (folder_name d) (change' (folder_items d)) (folder_metaData d))
                 (folder_at h a)"
proof (induction parts arbitrary: a r h')
  case Nil
  from Nil.prems(2) obtain name children metaData where
    obj: "h ! a = FolderObject name children metaData"
    by (cases "h ! a") auto
  have low: "\<forall>p \<in> set children. snd p < length h"
    using wf_store_pointers [OF wf Nil.prems(1) obj] Nil.prems(1) by fastforce
  from Nil.prems(3) obj have r: "r = length h"
    and h': "h' = h @ [FolderObject name (change children) metaData]"
    by (simp_all add: alloc_def)
  have wf': "wf_store h'"
    unfolding h' using ch [OF low] by (intro wf_store_alloc [OF wf]) auto
  have "folder_at h' r = VirtualFolder name (items_at h' (change children)) metaData"
    using folder_at_folder [OF wf', of r name "change children" metaData]
    by (simp add: r h')
  also have "items_at h' (change children) = items_at h (change children)"
    unfolding h' using ch [OF low] by (intro items_at_extend) auto
  also have "\<dots> = change' (items_at h children)"
    using ch [OF low] by simp
  finally show ?case
    using folder_at_folder [OF wf Nil.prems(1) obj] wf' by (simp add: r h')
next
  case (Cons part parts)
  let ?f = "\<lambda>d. VirtualFolder (folder_name d) (change' (folder_items d)) (folder_metaData d)"
  from Cons.prems(2) obtain name children metaData where
    obj: "h ! a = FolderObject name children metaData"
    by (cases "h ! a") auto
  have fa: "folder_at h a = VirtualFolder name (items_at h children) metaData"
    using folder_at_folder [OF wf Cons.prems(1) obj] .
  show ?case
  proof (cases "\<exists>c. obj_get children part = Own c \<and> is_folder_object (h ! c)")
    case False
    then have "copy_path h a (part # parts) change = (a, h)"
      using obj by (auto split: property.splits)
    moreover have "modify_folder (part # parts) ?f (folder_at h a) = folder_at h a"
    proof (cases "obj_get children part")
      case (Own c)
      with False have nf: "\<not> is_folder_object (h ! c)" by simp
      have "c < a" using wf_store_pointers [OF wf Cons.prems(1) obj obj_get_Own_in_set [OF Own]] .
      then have "c < length h" using Cons.prems(1) by simp
      with nf have "item_at h c \<noteq> Folder (folder_at h c)"
        using item_at_is_folder [OF wf, of c] by simp
      then have "\<forall>d. item_at h c \<noteq> Folder d" by (auto simp: folder_at_def)
      then show ?thesis
        using Own by (auto simp: fa obj_get_items_at split: VirtualItem.splits)
    qed (simp_all add: fa obj_get_items_at)
    ultimately show ?thesis
      using Cons.prems wf by auto
  next
    case True
    then obtain c where c: "obj_get children part = Own c" and cf: "is_folder_object (h ! c)"
      by blast
    have ca: "c < a"
      using wf_store_pointers [OF wf Cons.prems(1) obj obj_get_Own_in_set [OF c]] .
    then have cl: "c < length h" using Cons.prems(1) by simp
    obtain c' h1 where cp: "copy_path h c parts change = (c', h1)"
      by (cases "copy_path h c parts change")
    from Cons.IH [OF cl cf cp] obtain ext where
      h1: "h1 = h @ ext" and wf1: "wf_store h1" and c'l: "c' < length h1"
      and c'f: "is_folder_object (h1 ! c')"
      and abs: "folder_at h1 c' = modify_folder parts ?f (folder_at h c)"
      by blast
    from Cons.prems(3) obj c cf cp have r: "r = length h1"
      and h': "h' = h1 @ [FolderObject name (obj_set children part c') metaData]"
      by (simp_all add: alloc_def)
    have low: "\<forall>p \<in> set children. snd p < length h"
      using wf_store_pointers [OF wf Cons.prems(1) obj] Cons.prems(1) by fastforce
    have low1: "\<forall>p \<in> set (obj_set children part c'). snd p < length h1"
      using low c'l h1 by (auto dest!: set_obj_set)
    have wf': "wf_store h'"
      unfolding h' using low1 by (intro wf_store_alloc [OF wf1]) auto
    have ic: "item_at h c = Folder (folder_at h c)"
      using item_at_is_folder [OF wf cl] cf by simp
    have ic': "item_at h' c' = Folder (folder_at h1 c')"
      using item_at_is_folder [OF wf1 c'l] c'f item_at_extend [OF c'l] by (simp add: h')
    have "folder_at h' r
        = VirtualFolder name (items_at h' (obj_set children part c')) metaData"
      using folder_at_folder [OF wf', of r name "obj_set children part c'" metaData]
      by (simp add: r h')
    also have "items_at h' (obj_set children part c')
        = obj_set (items_at h' children) part (item_at h' c')"
      by (rule obj_set_items_at)
    also have "items_at h' children = items_at h children"
      using items_at_extend [of children h "ext @ [FolderObject name (obj_set children part c') metaData]"]
        low by (simp add: h' h1)
    finally have "folder_at h' r
        = VirtualFolder name
            (obj_set (items_at h children) part (Folder (modify_folder parts ?f (folder_at h c))))
            metaData"
      by (simp add: ic' abs)
    moreover have "modify_folder (part # parts) ?f (folder_at h a)
        = VirtualFolder name
            (obj_set (items_at h children) part (Folder (modify_folder parts ?f (folder_at h c))))
            metaData"
      by (simp add: fa obj_get_items_at c ic)
    ultimately show ?thesis
      using wf' by (simp add: r h' h1)
  qed
qed

lemma folder_at_extend: "a < length h \<Longrightarrow> folder_at (h @ ext) a = folder_at h a"
  by (simp add: folder_at_def item_at_extend)

lemma snapshot_of_extend: "a < length h \<Longrightarrow> snapshot_of (h @ ext) a = snapshot_of h a"
  by (simp add: snapshot_of_def folder_at_extend)

lemma store_put_item:
  assumes snap: "is_snapshot h v"
    and obj: "pointers obj = []" "item_at (h @ [obj]) (length h) = it"
    and cp: "copy_path (h @ [obj]) v parts (\<lambda>children. obj_set children name (length h)) = (r, h2)"
  shows "(\<exists>ext. h2 = h @ ext) \<and> is_snapshot h2 r
         \<and> folder_at h2 r = modify_folder parts (set_item name it) (folder_at h v)"
proof -
  let ?h1 = "h @ [obj]"
  from snap have wf: "wf_store h" and v: "v < length h" and vf: "is_folder_object (h ! v)"
    by (simp_all add: is_snapshot_def)
  have wf1: "wf_store ?h1" using wf obj(1) by (intro wf_store_alloc) auto
  have v1: "v < length ?h1" "is_folder_object (?h1 ! v)"
    using v vf by (simp_all add: nth_append)
  have ch: "(\<forall>p \<in> set (obj_set children name (length h)). snd p < length ?h1)
            \<and> items_at ?h1 (obj_set children name (length h))
                = obj_set (items_at ?h1 children) name it"
    if "\<forall>p \<in> set children. snd p < length ?h1" for children
    using that obj(2) by (auto simp: obj_set_items_at dest!: set_obj_set)
  from copy_path_correct [of ?h1 "\<lambda>children. obj_set children name (length h)"
      "\<lambda>items. obj_set items name it", OF wf1 ch v1 cp]
  obtain ext where "h2 = ?h1 @ ext" "wf_store h2" "r < length h2" "is_folder_object (h2 ! r)"
    "folder_at h2 r
       = modify_folder parts
           (\<lambda>d. VirtualFolder (folder_name d) (obj_set (folder_items d) name it) (folder_metaData d))
           (folder_at ?h1 v)"
    by blast
  moreover have "(\<lambda>d. VirtualFolder (folder_name d) (obj_set (folder_items d) name it) (folder_metaData d))
      = set_item name it"
    by (simp add: set_item_def fun_eq_iff)
  ultimately show ?thesis
    using v by (auto simp: is_snapshot_def folder_at_extend)
qed

lemma store_remove_item:
  assumes snap: "is_snapshot h v"
    and cp: "copy_path h v parts (\<lambda>children. obj_delete children name) = (r, h2)"
  shows "(\<exists>ext. h2 = h @ ext) \<and> is_snapshot h2 r
         \<and> folder_at h2 r = modify_folder parts (delete_item name) (folder_at h v)"
proof -
  from snap have wf: "wf_store h" and v: "v < length h" "is_folder_object (h ! v)"
    by (simp_all add: is_snapshot_def)
  have ch: "(\<forall>p \<in> set (obj_delete children name). snd p < length h)
            \<and> items_at h (obj_delete children name) = obj_delete (items_at h children) name"
    if "\<forall>p \<in> set children. snd p < length h" for children
    using that by (auto simp: obj_delete_items_at dest!: set_obj_delete)
  from copy_path_correct [of h "\<lambda>children. obj_delete children name"
      "\<lambda>items. obj_delete items name", OF wf ch v cp]
  have "(\<exists>ext. h2 = h @ ext) \<and> wf_store h2 \<and> r < length h2 \<and> is_folder_object (h2 ! r)
    \<and> folder_at h2 r
       = modify_folder parts
           (\<lambda>d. VirtualFolder (folder_name d) (obj_delete (folder_items d) name) (folder_metaData d))
           (folder_at h v)" .
  moreover have "(\<lambda>d. VirtualFolder (folder_name d) (obj_delete (folder_items d) name) (folder_metaData d))
      = delete_item name"
    by (simp add: delete_item_def fun_eq_iff)
  ultimately show ?thesis
    by (auto simp: is_snapshot_def)
qed

lemma createFile_name:
  "createFile vfs path c m = Inr result \<Longrightarrow>
     createFile vfs path c m
       = Inr (VirtualFileSystem (modify_folder (parent_parts path)
            (set_item (last (path_parts path))
               (File (createVirtualFile (last (path_parts path)) (or_default c []) (or_default m []))))
            (root vfs)))"
  by (auto simp: createFile_def Let_def getParentFolderAndName_Inr
      split: sum.splits if_splits)

lemma createFolder_name:
  "createFolder vfs path m = Inr result \<Longrightarrow>
     createFolder vfs path m
       = Inr (VirtualFileSystem (modify_folder (parent_parts path)
            (set_item (last (path_parts path))
               (Folder (createVirtualFolder (last (path_parts path)) (or_default m []))))
            (root vfs)))"
  by (auto simp: createFolder_def Let_def getParentFolderAndName_Inr
      split: sum.splits if_splits)

lemma delete_name:
  "delete vfs path = Inr result \<Longrightarrow>
     delete vfs path
       = Inr (VirtualFileSystem (modify_folder (parent_parts path)
            (delete_item (last (path_parts path))) (root vfs)))"
  by (auto simp: delete_def getParentFolderAndName_Inr
      split: sum.splits if_splits property.splits)

lemma store_createFile_refines:
  assumes "is_snapshot h v"
  shows "refines h v (createFile (snapshot_of h v) path c m) (store_createFile h v path c m)"
proof (cases "createFile (snapshot_of h v) path c m")
  case (Inl e)
  then show ?thesis by (simp add: refines_def store_createFile_def)
next
  case (Inr result)
  let ?name = "last (path_parts path)"
  let ?obj = "FileObject (createVirtualFile ?name (or_default c []) (or_default m []))"
  obtain r h2 where cp: "copy_path (h @ [?obj]) v (parent_parts path)
      (\<lambda>children. obj_set children ?name (length h)) = (r, h2)"
    by (cases "copy_path (h @ [?obj]) v (parent_parts path)
      (\<lambda>children. obj_set children ?name (length h))")
  have it: "item_at (h @ [?obj]) (length h)
      = File (createVirtualFile ?name (or_default c []) (or_default m []))"
    by (simp add: item_at_file)
  from store_put_item [OF assms _ it cp] createFile_name [OF Inr] Inr cp
  show ?thesis
    by (auto simp: refines_def store_createFile_def alloc_def Let_def snapshot_of_def)
qed

lemma store_createFolder_refines:
  assumes "is_snapshot h v"
  shows "refines h v (createFolder (snapshot_of h v) path m) (store_createFolder h v path m)"
proof (cases "createFolder (snapshot_of h v) path m")
  case (Inl e)
  then show ?thesis by (simp add: refines_def store_createFolder_def)
next
  case (Inr result)
  let ?name = "last (path_parts path)"
  let ?obj = "FolderObject ?name [] (or_default m [])"
  obtain r h2 where cp: "copy_path (h @ [?obj]) v (parent_parts path)
      (\<lambda>children. obj_set children ?name (length h)) = (r, h2)"
    by (cases "copy_path (h @ [?obj]) v (parent_parts path)
      (\<lambda>children. obj_set children ?name (length h))")
  have it: "item_at (h @ [?obj]) (length h)
      = Folder (createVirtualFolder ?name (or_default m []))"
    by (simp add: item_at.simps [of _ "length h"] createVirtualFolder_def)
  from store_put_item [OF assms _ it cp] createFolder_name [OF Inr] Inr cp
  show ?thesis
    by (auto simp: refines_def store_createFolder_def alloc_def Let_def snapshot_of_def)
qed

lemma store_updateFile_refines:
  assumes "is_snapshot h v"
  shows "refines h v (updateFile (snapshot_of h v) path c m) (store_updateFile h v path c m)"
proof (cases "getFile (snapshot_of h v) path")
  case (Inl e)
  then show ?thesis by (simp add: refines_def store_updateFile_def updateFile_def)
next
  case (Inr found)
  let ?name = "last (path_parts path)"
  let ?new = "VirtualFile (file_name found) c
                   (case m of None \<Rightarrow> file_metaData found | Some m \<Rightarrow> m)"
  obtain r h2 where cp: "copy_path (h @ [FileObject ?new]) v (parent_parts path)
      (\<lambda>children. obj_set children ?name (length h)) = (r, h2)"
    by (cases "copy_path (h @ [FileObject ?new]) v (parent_parts path)
      (\<lambda>children. obj_set children ?name (length h))")
  have it: "item_at (h @ [FileObject ?new]) (length h) = File ?new"
    by (simp add: item_at_file)
  from store_put_item [OF assms _ it cp] Inr cp
  show ?thesis
    by (auto simp: refines_def store_updateFile_def updateFile_def alloc_def Let_def
        snapshot_of_def)
qed

lemma store_delete_refines:
  assumes "is_snapshot h v"
  shows "refines h v (delete (snapshot_of h v) path) (store_delete h v path)"
proof (cases "delete (snapshot_of h v) path")
  case (Inl e)
  then show ?thesis by (simp add: refines_def store_delete_def)
next
  case (Inr result)
  let ?name = "last (path_parts path)"
  obtain r h2 where cp: "copy_path h v (parent_parts path)
      (\<lambda>children. obj_delete children ?name) = (r, h2)"
    by (cases "copy_path h v (parent_parts path) (\<lambda>children. obj_delete children ?name)")
  from store_remove_item [OF assms cp] delete_name [OF Inr] Inr cp
  show ?thesis
    by (auto simp: refines_def store_delete_def Let_def snapshot_of_def)
qed

lemma store_createOrUpdateFile_refines:
  assumes "is_snapshot h v"
  shows "refines h v (createOrUpdateFile (snapshot_of h v) path c m)
           (store_createOrUpdateFile h v path c m)"
  using store_updateFile_refines [OF assms, of path "or_default c []" "Some (or_default m [])"]
    store_createFile_refines [OF assms, of path "Some (or_default c [])" "Some (or_default m [])"]
  by (auto simp: refines_def store_createOrUpdateFile_def createOrUpdateFile_def Let_def
      split: sum.splits prod.splits)

lemma store_apply_refines:
  "is_snapshot h v \<Longrightarrow> refines h v (apply_operation op (snapshot_of h v)) (store_apply op h v)"
  by (cases op)
     (simp_all add: store_createFile_refines store_createFolder_refines store_updateFile_refines
        store_createOrUpdateFile_refines store_delete_refines)

lemma createFile_not_exists: "createFile vfs path c m = Inr result \<Longrightarrow> \<not> exists vfs path"
  by (cases "getParentFolderAndName vfs path")
     (auto simp: createFile_def exists_def getItem_def Let_def split: if_splits property.splits
        elim!: present.elims)

lemma store_with_file_built:
  "store_apply (CreateFolder ''folder'' None) empty_store 0
     = (Inr 2, take 3 store_with_file)"
  "store_apply (CreateFile ''folder/file1.txt'' (Some ''Content 1'') None) (take 3 store_with_file) 2
     = (Inr 5, store_with_file)"
  by code_simp+

section \<open>The claims\<close>

text \<open>
  Claim C9. On an empty file system, \<^verbatim>\<open>createFile("nonexistent/folder/structure/test.txt", "x")\<close>
  throws, and the message of the error is
  \<^verbatim>\<open>Folder "nonexistent/folder/structure" does not exist.\<close>: it names the folder part of
  the requested path, neither the whole path nor a shorter prefix.
\<close>

theorem deep_path_failure_message:
  "createFile empty_vfs ''nonexistent/folder/structure/test.txt'' (Some ''x'') None
     = Inl (FolderNotFound ''nonexistent/folder/structure'')
   \<and> message (FolderNotFound ''nonexistent/folder/structure'')
     = ''Folder \"nonexistent/folder/structure\" does not exist.''"
  by code_simp

text \<open>
  Claim C2. \<^verbatim>\<open>toJSON\<close> returns the root folder itself and \<^verbatim>\<open>fromJSON\<close> wraps the
  folder it is given, so \<^verbatim>\<open>fromJSON(vfs.toJSON())\<close> is a file system with the same root:
  \<^verbatim>\<open>listItems\<close> and \<^verbatim>\<open>readFile\<close> give the same results at every path. This holds for
  every file system, whichever operations built it.
\<close>

theorem json_round_trip:
  "fromJSON (toJSON vfs) = vfs
   \<and> listItems (fromJSON (toJSON vfs)) path_arg = listItems vfs path_arg
   \<and> readFile (fromJSON (toJSON vfs)) path = readFile vfs path"
  by (cases vfs) (simp add: fromJSON_def toJSON_def new_VirtualFileSystem_def)

text \<open>
  Claim C3, as stated, fails. The specification says that a folder error names the
  sub-path consumed so far, \<open>p1/.../p(k+1)\<close> when \<open>p1 .. pk\<close> resolve and \<open>p(k+1)\<close> does
  not. On an empty file system the first part of \<^verbatim>\<open>nonexistent/folder/structure\<close> is
  already missing, so that sub-path is \<^verbatim>\<open>nonexistent\<close>; the error names
  \<^verbatim>\<open>nonexistent/folder/structure\<close>. Likewise, when \<^verbatim>\<open>folder\<close> exists, resolving
  \<^verbatim>\<open>folder/x/y/test.txt\<close> stops at \<^verbatim>\<open>x\<close> and the error names \<^verbatim>\<open>folder/x/y\<close>.
\<close>

theorem folder_error_not_consumed_sub_path:
  "createFile empty_vfs ''nonexistent/folder/structure/test.txt'' (Some ''x'') None
     = Inl (FolderNotFound ''nonexistent/folder/structure'')
   \<and> consumed_sub_path (root empty_vfs) (parent_parts ''nonexistent/folder/structure/test.txt'')
     = ''nonexistent''
   \<and> createFile empty_vfs ''nonexistent/folder/structure/test.txt'' (Some ''x'') None
     \<noteq> Inl (FolderNotFound (consumed_sub_path (root empty_vfs)
              (parent_parts ''nonexistent/folder/structure/test.txt'')))
   \<and> readFile vfs_with_folder ''folder/x/y/test.txt'' = Inl (FolderNotFound ''folder/x/y'')
   \<and> consumed_sub_path (root vfs_with_folder) (parent_parts ''folder/x/y/test.txt'')
     = ''folder/x''
   \<and> listItems empty_vfs (Some ''a/b/c'') = Inl (FolderNotFound ''a/b/c'')
   \<and> consumed_sub_path (root empty_vfs) (path_parts ''a/b/c'') = ''a''"
  by code_simp

text \<open>
  Claim C3, amended. When the parts before some part of the folder path resolve and that
  part is missing in the folder reached, or is not a folder there, the resolver fails at
  that part, whatever parts follow it, with \<open>FolderNotFound\<close>; and \<^verbatim>\<open>getFolder\<close>
  fails in no other way. The message names the whole folder path that the resolver was asked for,
  whichever part failed. For \<^verbatim>\<open>getFolder\<close> and \<^verbatim>\<open>listItems\<close> that is the path argument
  as given. For the operations that resolve parent and name (\<^verbatim>\<open>createFile\<close>,
  \<^verbatim>\<open>createFolder\<close>, \<^verbatim>\<open>updateFile\<close>, \<^verbatim>\<open>delete\<close>, \<^verbatim>\<open>readFile\<close>, \<^verbatim>\<open>getItem\<close>) it is the
  parts before the last, joined by slashes, and each of them fails with that error
  (\<^verbatim>\<open>exists\<close> answers false).
\<close>

theorem folder_error_names_requested_folder:
  "(path_parts path = pre @ part # rest
      \<and> getFolder vfs (join_slash pre) = Inr d
      \<and> (\<forall>nxt. obj_get (folder_items d) part \<noteq> Own (Folder nxt))
     \<longrightarrow> getFolder vfs path = Inl (FolderNotFound path)
         \<and> listItems vfs (Some path) = Inl (FolderNotFound path))
   \<and> (butlast (path_parts path) = pre' @ part' # rest'
      \<and> getFolder vfs (join_slash pre') = Inr d'
      \<and> (\<forall>nxt. obj_get (folder_items d') part' \<noteq> Own (Folder nxt))
     \<longrightarrow> createFile vfs path content_arg metaData_arg
           = Inl (FolderNotFound (join_slash (butlast (path_parts path))))
         \<and> createFolder vfs path metaData_arg
           = Inl (FolderNotFound (join_slash (butlast (path_parts path))))
         \<and> updateFile vfs path content metaData_arg
           = Inl (FolderNotFound (join_slash (butlast (path_parts path))))
         \<and> delete vfs path = Inl (FolderNotFound (join_slash (butlast (path_parts path))))
         \<and> readFile vfs path = Inl (FolderNotFound (join_slash (butlast (path_parts path))))
         \<and> getItem vfs path = Inl (FolderNotFound (join_slash (butlast (path_parts path))))
         \<and> \<not> exists vfs path)
   \<and> (getFolder vfs path = Inl e \<longrightarrow>
        e = FolderNotFound path \<and> listItems vfs (Some path) = Inl e
        \<and> (\<exists>pre part rest d. path_parts path = pre @ part # rest
              \<and> getFolder vfs (join_slash pre) = Inr d
              \<and> (\<forall>nxt. obj_get (folder_items d) part \<noteq> Own (Folder nxt))))
   \<and> (getParentFolderAndName vfs path = Inl e' \<and> path_parts path \<noteq> [] \<longrightarrow>
        e' = FolderNotFound (join_slash (butlast (path_parts path)))
        \<and> createFile vfs path content_arg metaData_arg = Inl e'
        \<and> createFolder vfs path metaData_arg = Inl e'
        \<and> updateFile vfs path content metaData_arg = Inl e'
        \<and> delete vfs path = Inl e'
        \<and> readFile vfs path = Inl e'
        \<and> getItem vfs path = Inl e'
        \<and> \<not> exists vfs path)"
proof -
  have a: "getFolder vfs path = Inl (FolderNotFound path)
         \<and> listItems vfs (Some path) = Inl (FolderNotFound path)"
    if "path_parts path = pre @ part # rest" "getFolder vfs (join_slash pre) = Inr d"
      "\<forall>nxt. obj_get (folder_items d) part \<noteq> Own (Folder nxt)"
    using getFolder_missing_segment [OF that] by (simp add: listItems_def or_default_def)
  have b: "getParentFolderAndName vfs path
         = Inl (FolderNotFound (join_slash (butlast (path_parts path))))"
    if "butlast (path_parts path) = pre' @ part' # rest'"
      "getFolder vfs (join_slash pre') = Inr d'"
      "\<forall>nxt. obj_get (folder_items d') part' \<noteq> Own (Folder nxt)"
    using getParentFolderAndName_missing_segment [OF that] .
  have c: "e = FolderNotFound path" if "getFolder vfs path = Inl e"
    using that by (auto simp: getFolder_def dest: getFolder_loop_error)
  have d: "e' = FolderNotFound (join_slash (butlast (path_parts path)))"
    if "getParentFolderAndName vfs path = Inl e'" "path_parts path \<noteq> []"
    using that
    by (auto simp: getParentFolderAndName_def getFolder_def Let_def
        dest: getFolder_loop_error split: sum.splits)
  have ops: "createFile vfs path content_arg metaData_arg = Inl x
        \<and> createFolder vfs path metaData_arg = Inl x
        \<and> updateFile vfs path content metaData_arg = Inl x
        \<and> delete vfs path = Inl x
        \<and> readFile vfs path = Inl x
        \<and> getItem vfs path = Inl x
        \<and> \<not> exists vfs path"
    if "getParentFolderAndName vfs path = Inl x" for x
    using that
    by (simp add: createFile_def createFolder_def updateFile_def delete_def readFile_def
        getFile_def getItem_def exists_def Let_def)
  show ?thesis
    using a b c d ops getFolder_failure_segment [of vfs path e]
    by (simp add: listItems_def or_default_def)
qed

theorem folder_error_names_requested_folder_witness:
  "path_parts ''folder/x/y'' = [''folder''] @ ''x'' # [''y'']
   \<and> getFolder vfs_with_files (join_slash [''folder''])
       = Inr (VirtualFolder ''folder''
          [(''file1.txt'', File (VirtualFile ''file1.txt'' ''Content 1'' [])),
           (''file2.txt'', File (VirtualFile ''file2.txt'' ''Content 2'' []))] [])
   \<and> getFolder vfs_with_files ''folder/x/y'' = Inl (FolderNotFound ''folder/x/y'')
   \<and> listItems vfs_with_files (Some ''folder/x/y'') = Inl (FolderNotFound ''folder/x/y'')
   \<and> butlast (path_parts ''/folder/file1.txt//z/new.txt'') = [''folder''] @ ''file1.txt'' # [''z'']
   \<and> createFile vfs_with_files ''/folder/file1.txt//z/new.txt'' None None
       = Inl (FolderNotFound ''folder/file1.txt/z'')
   \<and> delete vfs_with_files ''/folder/file1.txt//z/new.txt''
       = Inl (FolderNotFound ''folder/file1.txt/z'')
   \<and> getParentFolderAndName empty_vfs ''/a//b/c'' = Inl (FolderNotFound ''a/b'')
   \<and> readFile empty_vfs ''/a//b/c'' = Inl (FolderNotFound ''a/b'')"
proof -
  let ?folder = "VirtualFolder ''folder''
          [(''file1.txt'', File (VirtualFile ''file1.txt'' ''Content 1'' [])),
           (''file2.txt'', File (VirtualFile ''file2.txt'' ''Content 2'' []))] []"
  have 1: "path_parts ''folder/x/y'' = [''folder''] @ ''x'' # [''y'']" by code_simp
  have 2: "getFolder vfs_with_files (join_slash [''folder'']) = Inr ?folder" by code_simp
  have 3: "\<forall>nxt. obj_get (folder_items ?folder) ''x'' \<noteq> Own (Folder nxt)"
    by (simp add: obj_get_def Object_prototype_keys_def)
  have 4: "butlast (path_parts ''/folder/file1.txt//z/new.txt'')
      = [''folder''] @ ''file1.txt'' # [''z'']" by code_simp
  have 5: "\<forall>nxt. obj_get (folder_items ?folder) ''file1.txt'' \<noteq> Own (Folder nxt)"
    by (simp add: obj_get_def)
  have 6: "getParentFolderAndName empty_vfs ''/a//b/c'' = Inl (FolderNotFound ''a/b'')"
    by code_simp
  have 7: "path_parts ''/a//b/c'' \<noteq> []" by code_simp
  from folder_error_names_requested_folder [of "''folder/x/y''" "[''folder'']" "''x''" "[''y'']" vfs_with_files ?folder] 1 2 3
  have a: "getFolder vfs_with_files ''folder/x/y'' = Inl (FolderNotFound ''folder/x/y'')
     \<and> listItems vfs_with_files (Some ''folder/x/y'') = Inl (FolderNotFound ''folder/x/y'')"
    by blast
  have j: "join_slash (butlast (path_parts ''/folder/file1.txt//z/new.txt''))
      = ''folder/file1.txt/z''" by code_simp
  from folder_error_names_requested_folder [of "''/folder/file1.txt//z/new.txt''" _ _ _ vfs_with_files _
      "[''folder'']" "''file1.txt''" "[''z'']" ?folder None None] 2 4 5
  have b: "createFile vfs_with_files ''/folder/file1.txt//z/new.txt'' None None
       = Inl (FolderNotFound ''folder/file1.txt/z'')
     \<and> delete vfs_with_files ''/folder/file1.txt//z/new.txt''
       = Inl (FolderNotFound ''folder/file1.txt/z'')"
    unfolding j by blast
  from folder_error_names_requested_folder [of "''/a//b/c''" _ _ _ empty_vfs _ _ _ _ _ _ _ _ _ "FolderNotFound ''a/b''"] 6 7
  have c: "readFile empty_vfs ''/a//b/c'' = Inl (FolderNotFound ''a/b'')" by blast
  from 1 2 4 6 a b c show ?thesis by blast
qed

text \<open>
  Claim C6, as stated, fails where it says that \<^verbatim>\<open>updateFile\<close> fails with \<open>NotFound\<close>
  whenever the path is absent. On an empty file system the path \<^verbatim>\<open>a/b\<close> is absent, and
  \<^verbatim>\<open>updateFile("a/b", "B")\<close> fails with the folder error \<^verbatim>\<open>Folder "a" does not exist.\<close>,
  not with \<^verbatim>\<open>VirtualFile "a/b" does not exist.\<close>; on a path without parts it fails with
  \<open>InvalidPath\<close>.
\<close>

theorem updateFile_missing_folder_is_not_NotFound:
  "\<not> exists empty_vfs ''a/b''
   \<and> updateFile empty_vfs ''a/b'' ''B'' None = Inl (FolderNotFound ''a'')
   \<and> updateFile empty_vfs ''a/b'' ''B'' None \<noteq> Inl (FileNotFound ''a/b'')
   \<and> message (FolderNotFound ''a'') = ''Folder \"a\" does not exist.''
   \<and> updateFile vfs_with_folder ''/'' ''B'' None = Inl (InvalidPath ''/'')"
  by code_simp

text \<open>
  Claim C6, amended. \<^verbatim>\<open>updateFile(path, content, metaData?)\<close> fails with \<open>InvalidPath\<close>
  when the path has no part; with \<open>FolderNotFound\<close>, naming the parts before the last,
  when one of those parts is missing or is not a folder; and with the error of
  \<^verbatim>\<open>getFile\<close>, \<^verbatim>\<open>VirtualFile "path" does not exist.\<close> (the specification's \<open>NotFound\<close>),
  when parent and name resolve and the entry of that name is absent or is not a file (a
  folder). When the path names a file it succeeds; in the result the file has the new
  content, and its metaData is the argument when one is given and the previous metaData
  otherwise. The example of the claim, \<^verbatim>\<open>createFile("x","A",{tag:1}).updateFile("x","B")\<close>,
  is in the witness.
\<close>

theorem updateFile_replaces_content_keeps_metaData:
  "(path_parts path = [] \<longrightarrow> updateFile vfs path content metaData = Inl (InvalidPath path))
   \<and> (butlast (path_parts path) = pre @ part # rest
        \<and> getFolder vfs (join_slash pre) = Inr d
        \<and> (\<forall>nxt. obj_get (folder_items d) part \<noteq> Own (Folder nxt))
       \<longrightarrow> updateFile vfs path content metaData
             = Inl (FolderNotFound (join_slash (butlast (path_parts path)))))
   \<and> (getParentFolderAndName vfs path = Inr (parentFolder, name)
      \<and> (\<forall>file. obj_get (folder_items parentFolder) name \<noteq> Own (File file))
      \<longrightarrow> updateFile vfs path content metaData = Inl (FileNotFound path))
   \<and> (getFile vfs path = Inr file \<longrightarrow>
        (\<exists>updated. updateFile vfs path content metaData = Inr updated
           \<and> readFile updated path = Inr content
           \<and> getFile updated path
               = Inr (VirtualFile (file_name file) content
                       (case metaData of None \<Rightarrow> file_metaData file | Some m \<Rightarrow> m))))"
proof -
  have "updateFile vfs path content metaData = Inl (InvalidPath path)" if "path_parts path = []"
    using that by (simp add: updateFile_def getFile_def getParentFolderAndName_def)
  moreover have "updateFile vfs path content metaData
             = Inl (FolderNotFound (join_slash (butlast (path_parts path))))"
    if "butlast (path_parts path) = pre @ part # rest"
      "getFolder vfs (join_slash pre) = Inr d"
      "\<forall>nxt. obj_get (folder_items d) part \<noteq> Own (Folder nxt)"
    using getParentFolderAndName_missing_segment [OF that]
    by (simp add: updateFile_def getFile_def)
  moreover have "updateFile vfs path content metaData = Inl (FileNotFound path)"
    if "getParentFolderAndName vfs path = Inr (parentFolder, name)"
      "\<forall>file. obj_get (folder_items parentFolder) name \<noteq> Own (File file)"
    using that
    by (auto simp: updateFile_def getFile_def split: property.splits VirtualItem.splits)
  moreover have "\<exists>updated. updateFile vfs path content metaData = Inr updated
           \<and> readFile updated path = Inr content
           \<and> getFile updated path
               = Inr (VirtualFile (file_name file) content
                       (case metaData of None \<Rightarrow> file_metaData file | Some m \<Rightarrow> m))"
    if "getFile vfs path = Inr file"
    using updateFile_Inr [OF that, of content metaData] by (auto simp: readFile_def)
  ultimately show ?thesis by blast
qed

theorem updateFile_replaces_content_keeps_metaData_witness:
  "getFile vfs_with_file ''x'' = Inr (VirtualFile ''x'' ''A'' [(''tag'', JNum 1)])
   \<and> (\<exists>updated. updateFile vfs_with_file ''x'' ''B'' None = Inr updated
         \<and> readFile updated ''x'' = Inr ''B''
         \<and> getFile updated ''x'' = Inr (VirtualFile ''x'' ''B'' [(''tag'', JNum 1)]))
   \<and> getParentFolderAndName vfs_with_folder ''folder''
        = Inr (VirtualFolder [] [(''folder'', Folder (VirtualFolder ''folder'' [] []))] [], ''folder'')
   \<and> updateFile vfs_with_folder ''folder'' ''B'' None = Inl (FileNotFound ''folder'')
   \<and> getParentFolderAndName empty_vfs ''x'' = Inr (VirtualFolder [] [] [], ''x'')
   \<and> updateFile empty_vfs ''x'' ''B'' None = Inl (FileNotFound ''x'')
   \<and> path_parts ''//'' = []
   \<and> updateFile vfs_with_file ''//'' ''B'' None = Inl (InvalidPath ''//'')
   \<and> butlast (path_parts ''folder/file1.txt/z'') = [''folder''] @ ''file1.txt'' # []
   \<and> updateFile vfs_with_files ''folder/file1.txt/z'' ''B'' None
        = Inl (FolderNotFound ''folder/file1.txt'')"
proof -
  let ?folder = "VirtualFolder ''folder''
          [(''file1.txt'', File (VirtualFile ''file1.txt'' ''Content 1'' [])),
           (''file2.txt'', File (VirtualFile ''file2.txt'' ''Content 2'' []))] []"
  note t = updateFile_replaces_content_keeps_metaData
  have 1: "getFile vfs_with_file ''x'' = Inr (VirtualFile ''x'' ''A'' [(''tag'', JNum 1)])"
    by code_simp
  have 2: "getParentFolderAndName vfs_with_folder ''folder''
        = Inr (VirtualFolder [] [(''folder'', Folder (VirtualFolder ''folder'' [] []))] [], ''folder'')"
    by code_simp
  have 3: "\<forall>file. obj_get (folder_items (VirtualFolder []
               [(''folder'', Folder (VirtualFolder ''folder'' [] []))] [])) ''folder''
             \<noteq> Own (File file)"
    by (simp add: obj_get_def)
  have 4: "getParentFolderAndName empty_vfs ''x'' = Inr (VirtualFolder [] [] [], ''x'')"
    by code_simp
  have 5: "\<forall>file. obj_get (folder_items (VirtualFolder [] [] [])) ''x'' \<noteq> Own (File file)"
    by (simp add: obj_get_def)
  have 6: "path_parts ''//'' = []" by code_simp
  have 7: "butlast (path_parts ''folder/file1.txt/z'') = [''folder''] @ ''file1.txt'' # []"
    by code_simp
  have 8: "getFolder vfs_with_files (join_slash [''folder'']) = Inr ?folder" by code_simp
  have 9: "\<forall>nxt. obj_get (folder_items ?folder) ''file1.txt'' \<noteq> Own (Folder nxt)"
    by (simp add: obj_get_def)
  have j: "join_slash (butlast (path_parts ''folder/file1.txt/z'')) = ''folder/file1.txt''"
    by code_simp
  from t [THEN conjunct2, THEN conjunct2, THEN conjunct2, THEN mp, OF 1, of "''B''" None]
  have a: "\<exists>updated. updateFile vfs_with_file ''x'' ''B'' None = Inr updated
         \<and> readFile updated ''x'' = Inr ''B''
         \<and> getFile updated ''x'' = Inr (VirtualFile ''x'' ''B'' [(''tag'', JNum 1)])"
    by simp
  have b: "updateFile vfs_with_folder ''folder'' ''B'' None = Inl (FileNotFound ''folder'')"
    by (rule t [THEN conjunct2, THEN conjunct2, THEN conjunct1, THEN mp, OF conjI [OF 2 3]])
  have c: "updateFile empty_vfs ''x'' ''B'' None = Inl (FileNotFound ''x'')"
    by (rule t [THEN conjunct2, THEN conjunct2, THEN conjunct1, THEN mp, OF conjI [OF 4 5]])
  have d: "updateFile vfs_with_file ''//'' ''B'' None = Inl (InvalidPath ''//'')"
    by (rule t [THEN conjunct1, THEN mp, OF 6])
  from t [THEN conjunct2, THEN conjunct1, THEN mp, OF conjI [OF 7 conjI [OF 8 9]],
      of "''B''" None]
  have e: "updateFile vfs_with_files ''folder/file1.txt/z'' ''B'' None
        = Inl (FolderNotFound ''folder/file1.txt'')"
    by (simp only: j)
  from 1 a 2 b 4 c 6 d 7 e show ?thesis by (intro conjI)
qed

text \<open>
  Claim C7. \<^verbatim>\<open>createOrUpdateFile\<close> calls \<^verbatim>\<open>updateFile\<close> with its own arguments (the
  defaults filled in). When that succeeds, its result is returned. When it fails, with
  whatever error, the result is that of \<^verbatim>\<open>createFile\<close> with the same arguments, so only
  an error of the create is seen: on a folder the update fails because the entry is not a
  file and the create then fails with \<open>AlreadyExists\<close>.
\<close>

theorem createOrUpdateFile_falls_back_on_any_error:
  "(updateFile vfs path (or_default content_arg []) (Some (or_default metaData_arg [])) = Inr updated
      \<longrightarrow> createOrUpdateFile vfs path content_arg metaData_arg = Inr updated)
   \<and> (updateFile vfs path (or_default content_arg []) (Some (or_default metaData_arg [])) = Inl e
      \<longrightarrow> createOrUpdateFile vfs path content_arg metaData_arg
            = createFile vfs path content_arg metaData_arg)"
  by (simp add: createOrUpdateFile_def createFile_args)

theorem createOrUpdateFile_falls_back_on_any_error_witness:
  "updateFile vfs_with_folder ''folder'' ''c'' (Some []) = Inl (FileNotFound ''folder'')
   \<and> createOrUpdateFile vfs_with_folder ''folder'' (Some ''c'') None = Inl (AlreadyExists ''folder'' ''folder'')
   \<and> updateFile empty_vfs ''a/b'' [] (Some []) = Inl (FolderNotFound ''a'')
   \<and> createOrUpdateFile empty_vfs ''a/b'' None None = Inl (FolderNotFound ''a'')
   \<and> createOrUpdateFile vfs_with_file ''x'' (Some ''B'') (Some [])
       = Inr (VirtualFileSystem (VirtualFolder [] [(''x'', File (VirtualFile ''x'' ''B'' []))] []))"
proof -
  have 1: "updateFile vfs_with_folder ''folder'' ''c'' (Some []) = Inl (FileNotFound ''folder'')"
    by code_simp
  have 2: "createFile vfs_with_folder ''folder'' (Some ''c'') None = Inl (AlreadyExists ''folder'' ''folder'')"
    by code_simp
  have 3: "updateFile empty_vfs ''a/b'' [] (Some []) = Inl (FolderNotFound ''a'')"
    by code_simp
  have 4: "createFile empty_vfs ''a/b'' None None = Inl (FolderNotFound ''a'')"
    by code_simp
  have 5: "updateFile vfs_with_file ''x'' ''B'' (Some [])
       = Inr (VirtualFileSystem (VirtualFolder [] [(''x'', File (VirtualFile ''x'' ''B'' []))] []))"
    by code_simp
  from createOrUpdateFile_falls_back_on_any_error [of vfs_with_folder "''folder''" "Some ''c''" None _ "FileNotFound ''folder''"] 1 2
  have a: "createOrUpdateFile vfs_with_folder ''folder'' (Some ''c'') None = Inl (AlreadyExists ''folder'' ''folder'')"
    by (simp add: or_default_def)
  from createOrUpdateFile_falls_back_on_any_error [of empty_vfs "''a/b''" None None _ "FolderNotFound ''a''"] 3 4
  have b: "createOrUpdateFile empty_vfs ''a/b'' None None = Inl (FolderNotFound ''a'')"
    by (simp add: or_default_def)
  from createOrUpdateFile_falls_back_on_any_error [of vfs_with_file "''x''" "Some ''B''" "Some []"] 5
  have c: "createOrUpdateFile vfs_with_file ''x'' (Some ''B'') (Some [])
       = Inr (VirtualFileSystem (VirtualFolder [] [(''x'', File (VirtualFile ''x'' ''B'' []))] []))"
    by (simp add: or_default_def)
  from 1 3 a b c show ?thesis by blast
qed

text \<open>
  Claim C10. For an existing file, \<^verbatim>\<open>createOrUpdateFile(path, content)\<close> without a
  metaData argument succeeds and leaves the file with the empty metaData \<^verbatim>\<open>{}\<close>: the
  default is passed on to \<^verbatim>\<open>updateFile\<close> as an explicit argument. A direct
  \<^verbatim>\<open>updateFile(path, content)\<close> keeps the file's metaData.
\<close>

theorem createOrUpdateFile_default_metaData_overwrites:
  "getFile vfs path = Inr file \<Longrightarrow>
     (\<exists>replaced. createOrUpdateFile vfs path (Some content) None = Inr replaced
        \<and> getFile replaced path = Inr (VirtualFile (file_name file) content []))
     \<and> (\<exists>updated. updateFile vfs path content None = Inr updated
        \<and> getFile updated path = Inr (VirtualFile (file_name file) content (file_metaData file)))"
  using updateFile_Inr [of vfs path "file" content "Some []"]
    updateFile_Inr [of vfs path "file" content None]
  by (auto simp: createOrUpdateFile_def or_default_def)

theorem createOrUpdateFile_default_metaData_overwrites_witness:
  "getFile vfs_with_file ''x'' = Inr (VirtualFile ''x'' ''A'' [(''tag'', JNum 1)])
   \<and> (\<exists>replaced. createOrUpdateFile vfs_with_file ''x'' (Some ''B'') None = Inr replaced
        \<and> getFile replaced ''x'' = Inr (VirtualFile ''x'' ''B'' []))
   \<and> (\<exists>updated. updateFile vfs_with_file ''x'' ''B'' None = Inr updated
        \<and> getFile updated ''x'' = Inr (VirtualFile ''x'' ''B'' [(''tag'', JNum 1)]))"
proof -
  have 1: "getFile vfs_with_file ''x'' = Inr (VirtualFile ''x'' ''A'' [(''tag'', JNum 1)])"
    by code_simp
  from createOrUpdateFile_default_metaData_overwrites [OF 1, of "''B''"] 1 show ?thesis by simp
qed

text \<open>
  Claim C4. A create on a name that the parent folder does not contain inserts the new
  item, says the claim, and so says the comment in \<^verbatim>\<open>createFile\<close>. The code tests
  \<^verbatim>\<open>parentFolder.items[name]\<close> for truthiness, and on a plain object that read also finds
  the properties inherited from \<^verbatim>\<open>Object.prototype\<close>: on an empty file system, which
  lists no item, creating \<^verbatim>\<open>constructor\<close> or \<^verbatim>\<open>toString\<close> is refused with
  \<open>AlreadyExists\<close>. (For every other fresh name the item is inserted, and a name that is
  taken is refused, whatever the kinds: \<open>create_on_fresh_name\<close>, \<open>create_on_taken_name\<close>.)
\<close>

theorem create_rejects_inherited_name:
  "listItems empty_vfs None = Inr []
   \<and> createFile empty_vfs ''constructor'' (Some ''x'') None
       = Inl (AlreadyExists ''constructor'' ''constructor'')
   \<and> createFolder empty_vfs ''toString'' None
       = Inl (AlreadyExists ''toString'' ''toString'')"
  by code_simp

text \<open>
  Claim C5, as stated, fails: \<^verbatim>\<open>delete\<close> tests \<^verbatim>\<open>metaData.isSystem\<close> for truthiness,
  not for being \<^verbatim>\<open>true\<close>. A file created with \<^verbatim>\<open>{isSystem: 1}\<close> has a flag that is
  not \<^verbatim>\<open>true\<close>, and deleting it is refused with \<open>SystemProtected\<close>, where the claim has
  the entry removed.
\<close>

theorem delete_refuses_truthy_flag:
  "getItem vfs_with_flagged_file ''f''
     = Inr (Own (File (VirtualFile ''f'' ''x'' [(''isSystem'', JNum 1)])))
   \<and> get_prop [(''isSystem'', JNum 1)] ''isSystem'' \<noteq> JBool True
   \<and> delete vfs_with_flagged_file ''f'' = Inl (SystemProtected ''f'')"
  by code_simp

text \<open>
  Claim C5, amended. \<^verbatim>\<open>delete(path)\<close> resolves parent and name. It fails with
  \<open>NotFound\<close> when the parent has no property of that name; it fails with
  \<open>SystemProtected\<close> when the entry's \<^verbatim>\<open>metaData.isSystem\<close> is truthy; otherwise it
  returns a file system in which exactly that entry is removed. The parent keeps its name
  and metaData and loses that one entry, the others keeping their order. Every folder
  above it keeps its name, its metaData, the names of its children in their order and
  every child but the one on the path, which is the folder found there in the result.
  At every path that is not the deleted path or below it, \<^verbatim>\<open>exists\<close>, \<^verbatim>\<open>getFile\<close> and
  \<^verbatim>\<open>readFile\<close> answer as before. This is the same for a file and for a folder, empty or
  not: the path and every path below it no longer exist. (A name inherited from
  \<^verbatim>\<open>Object.prototype\<close> that the parent does not own is left out: the read finds the
  inherited value and the flag test throws a \<open>TypeError\<close>.)
\<close>

theorem delete_removes_unless_missing_or_flagged:
  assumes "getParentFolderAndName vfs path = Inr (parentFolder, name)"
  shows "(obj_get (folder_items parentFolder) name = Undefined
            \<longrightarrow> delete vfs path = Inl (NotFound path))
    \<and> (obj_get (folder_items parentFolder) name = Own item
          \<and> truthy (get_prop (item_metaData item) ''isSystem'')
            \<longrightarrow> delete vfs path = Inl (SystemProtected path))
    \<and> (obj_get (folder_items parentFolder) name = Own item
          \<and> \<not> truthy (get_prop (item_metaData item) ''isSystem'')
            \<longrightarrow> (\<exists>vfs'. delete vfs path = Inr vfs'
                  \<and> getParentFolderAndName vfs' path = Inr (delete_item name parentFolder, name)
                  \<and> folder_name (delete_item name parentFolder) = folder_name parentFolder
                  \<and> folder_metaData (delete_item name parentFolder)
                      = folder_metaData parentFolder
                  \<and> folder_items (delete_item name parentFolder)
                      = filter (\<lambda>p. fst p \<noteq> name) (folder_items parentFolder)
                  \<and> getItem vfs' path = Inr (obj_get [] name)
                  \<and> (name \<notin> set Object_prototype_keys \<longrightarrow>
                        \<not> exists vfs' path \<and> (\<forall>rest. \<not> exists vfs' (path @ ''/'' @ rest)))
                  \<and> (\<forall>q. take (length (path_parts path)) (path_parts q) \<noteq> path_parts path
                        \<longrightarrow> exists vfs' q = exists vfs q
                            \<and> getFile vfs' q = getFile vfs q
                            \<and> readFile vfs' q = readFile vfs q)
                  \<and> (\<forall>pre part rest. butlast (path_parts path) = pre @ part # rest \<longrightarrow>
                        (\<exists>d below.
                            getFolder vfs (join_slash pre) = Inr d
                          \<and> getFolder vfs' (join_slash (pre @ [part])) = Inr below
                          \<and> getFolder vfs' (join_slash pre)
                              = Inr (VirtualFolder (folder_name d)
                                      (obj_set (folder_items d) part (Folder below))
                                      (folder_metaData d))
                          \<and> map fst (obj_set (folder_items d) part (Folder below))
                              = map fst (folder_items d)
                          \<and> filter (\<lambda>p. fst p \<noteq> part)
                                (obj_set (folder_items d) part (Folder below))
                              = filter (\<lambda>p. fst p \<noteq> part) (folder_items d)))))"
proof -
  let ?vfs' = "VirtualFileSystem (modify_folder (parent_parts path) (delete_item name) (root vfs))"
  have p': "getParentFolderAndName ?vfs' path = Inr (delete_item name parentFolder, name)"
    using getParentFolderAndName_modify [OF assms, of "delete_item name"] .
  then have parts: "path_parts path \<noteq> []" "name = last (path_parts path)"
    and d': "getFolder_loop [] (root ?vfs') (butlast (path_parts path))
               = Inr (delete_item name parentFolder)"
    unfolding getParentFolderAndName_Inr by blast+
  from assms have walk: "getFolder_loop [] (root vfs) (butlast (path_parts path)) = Inr parentFolder"
    unfolding getParentFolderAndName_Inr by blast
  have items: "obj_get (folder_items (delete_item name parentFolder)) name = obj_get [] name"
    by (simp add: delete_item_def obj_get_obj_delete)
  have below: "\<not> exists ?vfs' path \<and> (\<forall>rest. \<not> exists ?vfs' (path @ ''/'' @ rest))"
    if "name \<notin> set Object_prototype_keys"
  proof -
    from that items have gone:
      "obj_get (folder_items (delete_item name parentFolder)) (last (path_parts path)) = Undefined"
      by (simp add: obj_get_def parts(2) [symmetric])
    have "\<not> exists ?vfs' path"
      using not_exists_below [of path "path_parts path" "[]" ?vfs', OF _ parts(1) d' gone]
      by simp
    moreover have "\<not> exists ?vfs' (path @ ''/'' @ rest)" for rest
      using not_exists_below [of "path @ ''/'' @ rest" "path_parts path" "path_parts rest" ?vfs',
          OF _ parts(1) d' gone]
      by (simp add: path_parts_concat)
    ultimately show ?thesis by blast
  qed
  have others: "exists ?vfs' q = exists vfs q \<and> getFile ?vfs' q = getFile vfs q
        \<and> readFile ?vfs' q = readFile vfs q"
    if "take (length (path_parts path)) (path_parts q) \<noteq> path_parts path" for q
  proof (rule write_frame [OF _ parts(1) that])
    fix d k assume "k \<noteq> last (path_parts path)"
    then show "obj_get (folder_items (delete_item name d)) k = obj_get (folder_items d) k"
      by (simp add: delete_item_def obj_get_obj_delete parts(2))
  qed
  have level: "\<exists>d below.
        getFolder vfs (join_slash pre) = Inr d
      \<and> getFolder ?vfs' (join_slash (pre @ [part])) = Inr below
      \<and> getFolder ?vfs' (join_slash pre)
          = Inr (VirtualFolder (folder_name d) (obj_set (folder_items d) part (Folder below))
                  (folder_metaData d))
      \<and> map fst (obj_set (folder_items d) part (Folder below)) = map fst (folder_items d)
      \<and> filter (\<lambda>p. fst p \<noteq> part) (obj_set (folder_items d) part (Folder below))
          = filter (\<lambda>p. fst p \<noteq> part) (folder_items d)"
    if b: "butlast (path_parts path) = pre @ part # rest" for pre part rest
  proof -
    have c1: "\<forall>p \<in> set pre. p \<noteq> [] \<and> CHR ''/'' \<notin> set p"
      by (rule clean_prefix_butlast [OF b])
    have c2: "\<forall>p \<in> set (pre @ [part]). p \<noteq> [] \<and> CHR ''/'' \<notin> set p"
      by (rule clean_prefix_butlast [of path "pre @ [part]" rest]) (simp add: b)
    from modify_folder_level [of "root vfs" pre part rest parentFolder "delete_item name"]
      walk b
    show ?thesis
      by (simp add: getFolder_join [OF c1] getFolder_join [OF c2] parent_parts_butlast)
  qed
  show ?thesis
    using assms p' items below others level
    by (auto simp: delete_def getItem_def delete_item_def obj_delete_def)
qed

theorem delete_removes_unless_missing_or_flagged_witness:
  "getParentFolderAndName vfs_with_files ''folder/file1.txt''
     = Inr (VirtualFolder ''folder''
          [(''file1.txt'', File (VirtualFile ''file1.txt'' ''Content 1'' [])),
           (''file2.txt'', File (VirtualFile ''file2.txt'' ''Content 2'' []))] [], ''file1.txt'')
   \<and> delete vfs_with_files ''folder/file3.txt'' = Inl (NotFound ''folder/file3.txt'')
   \<and> delete vfs_with_flagged_file ''f'' = Inl (SystemProtected ''f'')
   \<and> (\<exists>vfs'. delete vfs_with_files ''folder/file1.txt'' = Inr vfs'
         \<and> \<not> exists vfs' ''folder/file1.txt'' \<and> exists vfs' ''folder/file2.txt'')
   \<and> (\<exists>vfs'. delete vfs_with_files ''folder'' = Inr vfs'
         \<and> \<not> exists vfs' ''folder'' \<and> \<not> exists vfs' ''folder/file1.txt'')
   \<and> (\<exists>vfs'. delete vfs_two_folders ''a/f'' = Inr vfs'
         \<and> \<not> exists vfs' ''a/f'' \<and> exists vfs' ''a'' \<and> exists vfs' ''b''
         \<and> readFile vfs' ''b/g'' = Inr ''2''
         \<and> getFolder vfs' ''a'' = Inr (VirtualFolder ''a'' [] [])
         \<and> getFolder vfs' []
              = Inr (VirtualFolder []
                  [(''a'', Folder (VirtualFolder ''a'' [] [])),
                   (''b'', Folder (VirtualFolder ''b'' [(''g'', File (VirtualFile ''g'' ''2'' []))] []))]
                  []))"
proof -
  let ?folder = "VirtualFolder ''folder''
          [(''file1.txt'', File (VirtualFile ''file1.txt'' ''Content 1'' [])),
           (''file2.txt'', File (VirtualFile ''file2.txt'' ''Content 2'' []))] []"
  have 1: "getParentFolderAndName vfs_with_files ''folder/file1.txt''
             = Inr (?folder, ''file1.txt'')"
    by code_simp
  have 2: "getParentFolderAndName vfs_with_files ''folder/file3.txt''
             = Inr (?folder, ''file3.txt'')"
    by code_simp
  have 3: "getParentFolderAndName vfs_with_flagged_file ''f''
             = Inr (VirtualFolder []
                 [(''f'', File (VirtualFile ''f'' ''x'' [(''isSystem'', JNum 1)]))] [], ''f'')"
    by code_simp
  have 4: "getParentFolderAndName vfs_with_files ''folder''
             = Inr (VirtualFolder [] [(''folder'', Folder ?folder)] [], ''folder'')"
    by code_simp
  have o2: "obj_get (folder_items ?folder) ''file3.txt'' = Undefined"
    by (simp add: obj_get_def Object_prototype_keys_def)
  have a: "delete vfs_with_files ''folder/file3.txt'' = Inl (NotFound ''folder/file3.txt'')"
    by (rule delete_removes_unless_missing_or_flagged [OF 2, THEN conjunct1, THEN mp, OF o2])
  have o3: "obj_get (folder_items (VirtualFolder []
                 [(''f'', File (VirtualFile ''f'' ''x'' [(''isSystem'', JNum 1)]))] [])) ''f''
        = Own (File (VirtualFile ''f'' ''x'' [(''isSystem'', JNum 1)]))
      \<and> truthy (get_prop (item_metaData (File (VirtualFile ''f'' ''x'' [(''isSystem'', JNum 1)])))
            ''isSystem'')"
    by (simp add: obj_get_def get_prop_def)
  have b: "delete vfs_with_flagged_file ''f'' = Inl (SystemProtected ''f'')"
    by (rule delete_removes_unless_missing_or_flagged
          [OF 3, THEN conjunct2, THEN conjunct1, THEN mp, OF o3])
  have c: "\<exists>vfs'. delete vfs_with_files ''folder/file1.txt'' = Inr vfs'
         \<and> \<not> exists vfs' ''folder/file1.txt'' \<and> exists vfs' ''folder/file2.txt''"
  proof -
    have o: "obj_get (folder_items ?folder) ''file1.txt''
          = Own (File (VirtualFile ''file1.txt'' ''Content 1'' []))
        \<and> \<not> truthy (get_prop (item_metaData (File (VirtualFile ''file1.txt'' ''Content 1'' [])))
              ''isSystem'')"
      by (simp add: obj_get_def get_prop_def)
    have n: "''file1.txt'' \<notin> set Object_prototype_keys"
      by (simp add: Object_prototype_keys_def)
    have q: "take (length (path_parts ''folder/file1.txt'')) (path_parts ''folder/file2.txt'')
          \<noteq> path_parts ''folder/file1.txt''"
      by code_simp
    have e: "exists vfs_with_files ''folder/file2.txt''" by code_simp
    note s = delete_removes_unless_missing_or_flagged
      [OF 1, THEN conjunct2, THEN conjunct2, THEN mp, OF o]
    then obtain vfs' where v: "delete vfs_with_files ''folder/file1.txt'' = Inr vfs'"
      and g: "''file1.txt'' \<notin> set Object_prototype_keys \<longrightarrow>
                \<not> exists vfs' ''folder/file1.txt''
                \<and> (\<forall>rest. \<not> exists vfs' (''folder/file1.txt'' @ ''/'' @ rest))"
      and f: "\<forall>q. take (length (path_parts ''folder/file1.txt'')) (path_parts q)
                  \<noteq> path_parts ''folder/file1.txt''
             \<longrightarrow> exists vfs' q = exists vfs_with_files q
                 \<and> getFile vfs' q = getFile vfs_with_files q
                 \<and> readFile vfs' q = readFile vfs_with_files q"
      by (elim exE conjE)
    from g n have x0: "\<not> exists vfs' ''folder/file1.txt''" by (rule mp [THEN conjunct1])
    from f [rule_format, OF q] e have x1: "exists vfs' ''folder/file2.txt''" by simp
    show ?thesis by (intro exI [of _ vfs'] conjI v x0 x1)
  qed
  have d: "\<exists>vfs'. delete vfs_with_files ''folder'' = Inr vfs'
         \<and> \<not> exists vfs' ''folder'' \<and> \<not> exists vfs' ''folder/file1.txt''"
  proof -
    have o: "obj_get (folder_items (VirtualFolder [] [(''folder'', Folder ?folder)] [])) ''folder''
          = Own (Folder ?folder)
        \<and> \<not> truthy (get_prop (item_metaData (Folder ?folder)) ''isSystem'')"
      by (simp add: obj_get_def get_prop_def)
    have n: "''folder'' \<notin> set Object_prototype_keys"
      by (simp add: Object_prototype_keys_def)
    note s = delete_removes_unless_missing_or_flagged
      [OF 4, THEN conjunct2, THEN conjunct2, THEN mp, OF o]
    then obtain vfs' where v: "delete vfs_with_files ''folder'' = Inr vfs'"
      and g: "''folder'' \<notin> set Object_prototype_keys \<longrightarrow>
                \<not> exists vfs' ''folder''
                \<and> (\<forall>rest. \<not> exists vfs' (''folder'' @ ''/'' @ rest))"
      by (elim exE conjE)
    from g n have x0: "\<not> exists vfs' ''folder''" by (rule mp [THEN conjunct1])
    from g n have "\<forall>rest. \<not> exists vfs' (''folder'' @ ''/'' @ rest)"
      by (rule mp [THEN conjunct2])
    then have "\<not> exists vfs' (''folder'' @ ''/'' @ ''file1.txt'')" by (rule spec)
    then have x1: "\<not> exists vfs' ''folder/file1.txt''" by simp
    show ?thesis by (intro exI [of _ vfs'] conjI v x0 x1)
  qed
  have e: "\<exists>vfs'. delete vfs_two_folders ''a/f'' = Inr vfs'
           \<and> \<not> exists vfs' ''a/f'' \<and> exists vfs' ''a'' \<and> exists vfs' ''b''
           \<and> readFile vfs' ''b/g'' = Inr ''2''
           \<and> getFolder vfs' ''a'' = Inr (VirtualFolder ''a'' [] [])
           \<and> getFolder vfs' []
                = Inr (VirtualFolder []
                    [(''a'', Folder (VirtualFolder ''a'' [] [])),
                     (''b'', Folder (VirtualFolder ''b'' [(''g'', File (VirtualFile ''g'' ''2'' []))] []))]
                    [])"
  proof -
    let ?a = "VirtualFolder ''a'' [(''f'', File (VirtualFile ''f'' ''1'' []))] []"
    have 5: "getParentFolderAndName vfs_two_folders ''a/f'' = Inr (?a, ''f'')"
      by code_simp
    have o: "obj_get (folder_items ?a) ''f'' = Own (File (VirtualFile ''f'' ''1'' []))
        \<and> \<not> truthy (get_prop (item_metaData (File (VirtualFile ''f'' ''1'' []))) ''isSystem'')"
      by (simp add: obj_get_def get_prop_def)
    have n: "''f'' \<notin> set Object_prototype_keys"
      by (simp add: Object_prototype_keys_def)
    have q1: "take (length (path_parts ''a/f'')) (path_parts ''a'') \<noteq> path_parts ''a/f''"
      by code_simp
    have q2: "take (length (path_parts ''a/f'')) (path_parts ''b'') \<noteq> path_parts ''a/f''"
      by code_simp
    have q3: "take (length (path_parts ''a/f'')) (path_parts ''b/g'') \<noteq> path_parts ''a/f''"
      by code_simp
    have old: "exists vfs_two_folders ''a''" "exists vfs_two_folders ''b''"
      "readFile vfs_two_folders ''b/g'' = Inr ''2''"
      by code_simp+
    have b: "butlast (path_parts ''a/f'') = [] @ ''a'' # []" by code_simp
    have r: "getFolder vfs_two_folders (join_slash []) = Inr (root vfs_two_folders)"
      by code_simp
    have j: "join_slash ([] @ [''a'']) = ''a''" "join_slash [] = []" by simp_all
    note s = delete_removes_unless_missing_or_flagged [OF 5, of "File (VirtualFile ''f'' ''1'' [])",
        THEN conjunct2, THEN conjunct2, THEN mp, OF o]
    then obtain vfs' where v: "delete vfs_two_folders ''a/f'' = Inr vfs'"
      and g: "''f'' \<notin> set Object_prototype_keys \<longrightarrow>
                \<not> exists vfs' ''a/f'' \<and> (\<forall>rest. \<not> exists vfs' (''a/f'' @ ''/'' @ rest))"
      and f: "\<forall>q. take (length (path_parts ''a/f'')) (path_parts q) \<noteq> path_parts ''a/f''
             \<longrightarrow> exists vfs' q = exists vfs_two_folders q
                 \<and> getFile vfs' q = getFile vfs_two_folders q
                 \<and> readFile vfs' q = readFile vfs_two_folders q"
      and l: "\<forall>pre part rest. butlast (path_parts ''a/f'') = pre @ part # rest \<longrightarrow>
                (\<exists>d below.
                    getFolder vfs_two_folders (join_slash pre) = Inr d
                  \<and> getFolder vfs' (join_slash (pre @ [part])) = Inr below
                  \<and> getFolder vfs' (join_slash pre)
                      = Inr (VirtualFolder (folder_name d)
                              (obj_set (folder_items d) part (Folder below))
                              (folder_metaData d))
                  \<and> map fst (obj_set (folder_items d) part (Folder below))
                      = map fst (folder_items d)
                  \<and> filter (\<lambda>p. fst p \<noteq> part)
                        (obj_set (folder_items d) part (Folder below))
                      = filter (\<lambda>p. fst p \<noteq> part) (folder_items d))"
      by (elim exE conjE)
    from g n have x0: "\<not> exists vfs' ''a/f''" by (rule mp [THEN conjunct1])
    from f [rule_format, OF q1] old have x1: "exists vfs' ''a''" by simp
    from f [rule_format, OF q2] old have x2: "exists vfs' ''b''" by simp
    from f [rule_format, OF q3] old have x3: "readFile vfs' ''b/g'' = Inr ''2''" by simp
    from l [rule_format, OF b] obtain d below where
      l0: "getFolder vfs_two_folders (join_slash []) = Inr d"
      and l1: "getFolder vfs' (join_slash ([] @ [''a''])) = Inr below"
      and l2: "getFolder vfs' (join_slash [])
          = Inr (VirtualFolder (folder_name d) (obj_set (folder_items d) ''a'' (Folder below))
                  (folder_metaData d))"
      by (elim exE conjE)
    from l0 r have d: "d = root vfs_two_folders" by simp
    from l1 have l1': "getFolder vfs' ''a'' = Inr below" by simp
    have "root vfs_two_folders = VirtualFolder []
         [(''a'', Folder ?a),
          (''b'', Folder (VirtualFolder ''b'' [(''g'', File (VirtualFile ''g'' ''2'' []))] []))] []"
      by (simp add: vfs_two_folders_def)
    with l2 d have l2': "getFolder vfs' []
        = Inr (VirtualFolder []
             [(''a'', Folder below),
              (''b'', Folder (VirtualFolder ''b'' [(''g'', File (VirtualFile ''g'' ''2'' []))] []))] [])"
      by (simp add: obj_set_def)
    have "delete vfs_two_folders ''a/f''
        = Inr (VirtualFileSystem (VirtualFolder []
             [(''a'', Folder (VirtualFolder ''a'' [] [])),
              (''b'', Folder (VirtualFolder ''b'' [(''g'', File (VirtualFile ''g'' ''2'' []))] []))] []))"
      by code_simp
    with v have "vfs' = VirtualFileSystem (VirtualFolder []
             [(''a'', Folder (VirtualFolder ''a'' [] [])),
              (''b'', Folder (VirtualFolder ''b'' [(''g'', File (VirtualFile ''g'' ''2'' []))] []))] [])"
      by simp
    moreover have "getFolder (VirtualFileSystem (VirtualFolder []
             [(''a'', Folder (VirtualFolder ''a'' [] [])),
              (''b'', Folder (VirtualFolder ''b'' [(''g'', File (VirtualFile ''g'' ''2'' []))] []))] []))
         ''a'' = Inr (VirtualFolder ''a'' [] [])"
      by code_simp
    ultimately have y: "getFolder vfs' ''a'' = Inr (VirtualFolder ''a'' [] [])" by simp
    with l1' have "below = VirtualFolder ''a'' [] []" by simp
    with l2' have z: "getFolder vfs' []
        = Inr (VirtualFolder []
             [(''a'', Folder (VirtualFolder ''a'' [] [])),
              (''b'', Folder (VirtualFolder ''b'' [(''g'', File (VirtualFile ''g'' ''2'' []))] []))] [])"
      by simp
    show ?thesis
      by (intro exI [of _ vfs'] conjI v x0 x1 x2 x3 y z)
  qed
  from 1 a b c d e show ?thesis by (intro conjI)
qed

text \<open>
  Claim C8, as stated, fails for arbitrary child names. \<^verbatim>\<open>listItems\<close> returns
  \<^verbatim>\<open>Object.values(folder.items)\<close>, and a JavaScript object enumerates the keys that are
  array indices first, in ascending numeric order: creating \<^verbatim>\<open>folder/2\<close> and then
  \<^verbatim>\<open>folder/1\<close> lists \<^verbatim>\<open>1\<close> before \<^verbatim>\<open>2\<close>.
\<close>

theorem listItems_array_index_names_first:
  "create_children vfs_with_folder ''folder'' [NewFile ''2'' ''b'', NewFile ''1'' ''a'']
     = Inr (VirtualFileSystem (VirtualFolder []
         [(''folder'', Folder (VirtualFolder ''folder''
            [(''1'', File (VirtualFile ''1'' ''a'' [])), (''2'', File (VirtualFile ''2'' ''b'' []))] []))] []))
   \<and> listItems (VirtualFileSystem (VirtualFolder []
         [(''folder'', Folder (VirtualFolder ''folder''
            [(''1'', File (VirtualFile ''1'' ''a'' [])), (''2'', File (VirtualFile ''2'' ''b'' []))] []))] []))
        (Some ''folder'')
     = Inr [File (VirtualFile ''1'' ''a'' []), File (VirtualFile ''2'' ''b'' [])]
   \<and> map created_item [NewFile ''2'' ''b'', NewFile ''1'' ''a'']
     = [File (VirtualFile ''2'' ''b'' []), File (VirtualFile ''1'' ''a'' [])]
   \<and> listItems (VirtualFileSystem (VirtualFolder []
         [(''folder'', Folder (VirtualFolder ''folder''
            [(''1'', File (VirtualFile ''1'' ''a'' [])), (''2'', File (VirtualFile ''2'' ''b'' []))] []))] []))
        (Some ''folder'')
     \<noteq> Inr (map created_item [NewFile ''2'' ''b'', NewFile ''1'' ''a''])"
  by code_simp

text \<open>
  Claim C8, amended. \<^verbatim>\<open>listItems\<close> returns the children in the order in which the
  \<^verbatim>\<open>items\<close> object enumerates them. For children whose names are not array indices
  that is the order of creation: creating, in a folder, children with distinct new names
  none of which is an array index (each name one path segment, not one inherited from
  \<^verbatim>\<open>Object.prototype\<close>) and then listing the folder gives the items listed before,
  followed by the new items in the order of their creation. The witness is the example of
  the claim: \<^verbatim>\<open>folder/file1.txt\<close>, then \<^verbatim>\<open>folder/file2.txt\<close>.
\<close>

theorem listItems_creation_order_of_plain_names:
  assumes "getFolder vfs folder = Inr d"
    and "distinct (map child_name children)"
    and "\<forall>c \<in> set children.
           child_name c \<noteq> [] \<and> CHR ''/'' \<notin> set (child_name c)
           \<and> obj_get (folder_items d) (child_name c) = Undefined
           \<and> \<not> is_array_index (child_name c)"
  shows "\<exists>vfs'. create_children vfs folder children = Inr vfs'
           \<and> listItems vfs' (Some folder)
               = Inr (Object_values (folder_items d) @ map created_item children)"
  using assms
proof (induction children arbitrary: vfs d)
  case Nil
  then show ?case by (simp add: listItems_Inr)
next
  case (Cons c cs)
  let ?d' = "VirtualFolder (folder_name d)
                (folder_items d @ [(child_name c, created_item c)]) (folder_metaData d)"
  from Cons.prems obtain vfs1 where
    1: "create_child vfs folder c = Inr vfs1" and 2: "getFolder vfs1 folder = Inr ?d'"
    using create_child_appends [of vfs folder d c] by auto
  have "\<forall>c' \<in> set cs.
           child_name c' \<noteq> [] \<and> CHR ''/'' \<notin> set (child_name c')
           \<and> obj_get (folder_items ?d') (child_name c') = Undefined
           \<and> \<not> is_array_index (child_name c')"
  proof
    fix c' assume c': "c' \<in> set cs"
    from Cons.prems(2) have "child_name c \<notin> set (map child_name cs)" by simp
    moreover from c' have "child_name c' \<in> set (map child_name cs)" by simp
    ultimately have "child_name c' \<noteq> child_name c" by metis
    moreover from c' Cons.prems(3) have
      "child_name c' \<noteq> [] \<and> CHR ''/'' \<notin> set (child_name c')
       \<and> obj_get (folder_items d) (child_name c') = Undefined
       \<and> \<not> is_array_index (child_name c')" by simp
    ultimately show "child_name c' \<noteq> [] \<and> CHR ''/'' \<notin> set (child_name c')
           \<and> obj_get (folder_items ?d') (child_name c') = Undefined
           \<and> \<not> is_array_index (child_name c')"
      by (auto simp: obj_get_def split: option.splits if_splits)
  qed
  with Cons.IH [OF 2] Cons.prems(2) obtain vfs' where
    "create_children vfs1 folder cs = Inr vfs'"
    "listItems vfs' (Some folder) = Inr (Object_values (folder_items ?d') @ map created_item cs)"
    by auto
  with 1 show ?case by (simp add: Object_values_def)
qed

theorem listItems_creation_order_of_plain_names_witness:
  "getFolder vfs_with_folder ''folder'' = Inr (VirtualFolder ''folder'' [] [])
   \<and> (\<exists>vfs'. create_children vfs_with_folder ''folder''
               [NewFile ''file1.txt'' ''Content 1'', NewFile ''file2.txt'' ''Content 2'']
             = Inr vfs'
         \<and> listItems vfs' (Some ''folder'')
             = Inr [File (VirtualFile ''file1.txt'' ''Content 1'' []),
                    File (VirtualFile ''file2.txt'' ''Content 2'' [])])"
proof -
  have 1: "getFolder vfs_with_folder ''folder'' = Inr (VirtualFolder ''folder'' [] [])"
    by code_simp
  have 2: "distinct (map child_name
             [NewFile ''file1.txt'' ''Content 1'', NewFile ''file2.txt'' ''Content 2''])"
    by simp
  have 3: "\<forall>c \<in> set [NewFile ''file1.txt'' ''Content 1'', NewFile ''file2.txt'' ''Content 2''].
           child_name c \<noteq> [] \<and> CHR ''/'' \<notin> set (child_name c)
           \<and> obj_get (folder_items (VirtualFolder ''folder'' [] [])) (child_name c) = Undefined
           \<and> \<not> is_array_index (child_name c)"
    by (simp add: obj_get_def Object_prototype_keys_def is_array_index_def is_digit_def)
  from listItems_creation_order_of_plain_names [OF 1 2 3] 1 show ?thesis
    by (simp add: Object_values_def)
qed

text \<open>
  Claim C1. No operation mutates the snapshot it is invoked on. In the store an
  operation only adds objects: for \<^verbatim>\<open>createFile\<close>, \<^verbatim>\<open>createFolder\<close>, \<^verbatim>\<open>updateFile\<close>,
  \<^verbatim>\<open>createOrUpdateFile\<close> and \<^verbatim>\<open>delete\<close>, called on a snapshot \<open>v1\<close>, every object that
  existed before the call is unchanged after it, whether the call returns a new snapshot
  or throws. So \<open>v1\<close> denotes the same tree, and \<^verbatim>\<open>exists\<close>, \<^verbatim>\<open>readFile\<close> and
  \<^verbatim>\<open>listItems\<close> answer on it at every path what they answered before. The outcome is
  the one the method computes on the tree of \<open>v1\<close>: the same error, or a new snapshot
  \<open>v2\<close> that denotes the resulting tree while sharing the untouched objects with \<open>v1\<close>.
  In particular, after \<^verbatim>\<open>v2 = v1.createFile(p, c)\<close>, \<^verbatim>\<open>v1.exists(p)\<close> is false.
\<close>

theorem receiver_snapshot_never_mutated:
  assumes "is_snapshot h v1" and "store_apply op h v1 = (result, h')"
  shows "take (length h) h' = h
     \<and> snapshot_of h' v1 = snapshot_of h v1
     \<and> exists (snapshot_of h' v1) path = exists (snapshot_of h v1) path
     \<and> readFile (snapshot_of h' v1) path = readFile (snapshot_of h v1) path
     \<and> listItems (snapshot_of h' v1) path_arg = listItems (snapshot_of h v1) path_arg
     \<and> (case result of
           Inl e \<Rightarrow> apply_operation op (snapshot_of h v1) = Inl e
         | Inr v2 \<Rightarrow> is_snapshot h' v2
                      \<and> apply_operation op (snapshot_of h v1) = Inr (snapshot_of h' v2))
     \<and> (\<forall>p c m v2. op = CreateFile p c m \<and> result = Inr v2
           \<longrightarrow> \<not> exists (snapshot_of h' v1) p)"
proof -
  from assms(1) have v: "v1 < length h" by (simp add: is_snapshot_def)
  from store_apply_refines [OF assms(1), of op] assms(2)
  have r: "refines h v1 (apply_operation op (snapshot_of h v1)) (result, h')" by simp
  then obtain ext where ext: "h' = h @ ext"
    by (cases result) (auto simp: refines_def)
  then have same: "snapshot_of h' v1 = snapshot_of h v1"
    using v by (simp add: snapshot_of_extend)
  have "\<not> exists (snapshot_of h v1) p" if "op = CreateFile p c m" "result = Inr v2" for p c m v2
    using r that by (auto simp: refines_def dest: createFile_not_exists)
  with r ext same show ?thesis
    by (cases result) (auto simp: refines_def)
qed

theorem receiver_snapshot_never_mutated_witness:
  "is_snapshot store_with_file 5
   \<and> store_apply (UpdateFile ''folder/file1.txt'' ''Changed'' None) store_with_file 5
       = (Inr 8, store_with_file @
            [FileObject (VirtualFile ''file1.txt'' ''Changed'' []),
             FolderObject ''folder'' [(''file1.txt'', 6)] [],
             FolderObject [] [(''folder'', 7)] []])
   \<and> readFile (snapshot_of (store_with_file @
            [FileObject (VirtualFile ''file1.txt'' ''Changed'' []),
             FolderObject ''folder'' [(''file1.txt'', 6)] [],
             FolderObject [] [(''folder'', 7)] []]) 5) ''folder/file1.txt''
       = Inr ''Content 1''
   \<and> readFile (snapshot_of (store_with_file @
            [FileObject (VirtualFile ''file1.txt'' ''Changed'' []),
             FolderObject ''folder'' [(''file1.txt'', 6)] [],
             FolderObject [] [(''folder'', 7)] []]) 8) ''folder/file1.txt''
       = Inr ''Changed''
   \<and> store_apply (Delete ''folder/file2.txt'') store_with_file 5
       = (Inl (NotFound ''folder/file2.txt''), store_with_file)
   \<and> is_snapshot empty_store 0
   \<and> store_apply (CreateFile ''test.txt'' (Some ''Hello, World!'') None) empty_store 0
       = (Inr 2, empty_store @
            [FileObject (VirtualFile ''test.txt'' ''Hello, World!'' []),
             FolderObject [] [(''test.txt'', 1)] []])
   \<and> \<not> exists (snapshot_of (empty_store @
            [FileObject (VirtualFile ''test.txt'' ''Hello, World!'' []),
             FolderObject [] [(''test.txt'', 1)] []]) 0) ''test.txt''
   \<and> exists (snapshot_of (empty_store @
            [FileObject (VirtualFile ''test.txt'' ''Hello, World!'' []),
             FolderObject [] [(''test.txt'', 1)] []]) 2) ''test.txt''"
proof -
  let ?h' = "store_with_file @
            [FileObject (VirtualFile ''file1.txt'' ''Changed'' []),
             FolderObject ''folder'' [(''file1.txt'', 6)] [],
             FolderObject [] [(''folder'', 7)] []]"
  let ?g' = "empty_store @
            [FileObject (VirtualFile ''test.txt'' ''Hello, World!'' []),
             FolderObject [] [(''test.txt'', 1)] []]"
  have 1: "is_snapshot store_with_file 5"
    by (simp add: is_snapshot_def wf_store_def store_with_file_def less_Suc_eq numeral_eq_Suc)
  have 2: "store_apply (UpdateFile ''folder/file1.txt'' ''Changed'' None) store_with_file 5
       = (Inr 8, ?h')"
    by code_simp
  have 3: "readFile (snapshot_of store_with_file 5) ''folder/file1.txt'' = Inr ''Content 1''"
    by code_simp
  have 4: "readFile (snapshot_of ?h' 8) ''folder/file1.txt'' = Inr ''Changed''"
    by code_simp
  have 5: "store_apply (Delete ''folder/file2.txt'') store_with_file 5
       = (Inl (NotFound ''folder/file2.txt''), store_with_file)"
    by code_simp
  have 6: "is_snapshot empty_store 0"
    by (simp add: is_snapshot_def wf_store_def empty_store_def)
  have 7: "store_apply (CreateFile ''test.txt'' (Some ''Hello, World!'') None) empty_store 0
       = (Inr 2, ?g')"
    by code_simp
  have 8: "exists (snapshot_of ?g' 2) ''test.txt''"
    by code_simp
  from receiver_snapshot_never_mutated [OF 1 2, of "''folder/file1.txt''"] 3
  have a: "readFile (snapshot_of ?h' 5) ''folder/file1.txt'' = Inr ''Content 1''"
    by simp
  from receiver_snapshot_never_mutated [OF 6 7]
  have b: "\<not> exists (snapshot_of ?g' 0) ''test.txt''"
    by blast
  from 1 2 4 5 6 7 8 a b show ?thesis by blast
qed

end
